theory Spec2Isabelle
  imports Complex_Main "HOL-Library.Monad_Syntax" "HOL-Library.Multiset"
begin

section \<open>NumPy floating-point values\<close>

text \<open>
  A float64 is either a finite number or one of the special values \<open>inf\<close>, \<open>-inf\<close>,
  \<open>nan\<close>.  Finite values are reals and the arithmetic on them is exact: rounding,
  overflow, underflow and the sign of zero are not modelled.  The special values follow
  the IEEE 754 rules that NumPy applies (a warning is printed, nothing is raised).
  Every zero divisor of this program is a sum of squares, a square root, a standard
  deviation or a mean of non-negative numbers, so a zero divisor is \<open>+0.0\<close>.

  The model therefore says which operations the program applies to which values, in
  which order, and where \<open>inf\<close> and \<open>nan\<close> arise from a zero divisor; it does not say
  what a rounded result is.  An identity of real arithmetic (a common factor cancelled,
  a sum reordered, \<open>(1 / a) * x\<close> taken for \<open>x / a\<close>, the mean of equal numbers taken
  for that number) holds of the model and can fail of the program, so no theorem
  below rests on one: the theorems are about order, structure and the special values,
  and the examples use inputs whose intermediate values float64 represents exactly or
  compare a value with itself.
\<close>

datatype npfloat = Fin real | PInf | NInf | NaN

instantiation npfloat :: "{zero, one, plus, uminus, minus, times, inverse, abs, ord}"
begin

definition zero_npfloat :: npfloat where
  "zero_npfloat = Fin 0"

definition one_npfloat :: npfloat where
  "one_npfloat = Fin 1"

fun plus_npfloat :: "npfloat \<Rightarrow> npfloat \<Rightarrow> npfloat" where
  "plus_npfloat NaN _ = NaN"
| "plus_npfloat _ NaN = NaN"
| "plus_npfloat (Fin a) (Fin b) = Fin (a + b)"
| "plus_npfloat PInf NInf = NaN"
| "plus_npfloat NInf PInf = NaN"
| "plus_npfloat PInf _ = PInf"
| "plus_npfloat NInf _ = NInf"
| "plus_npfloat (Fin a) b = b"

fun uminus_npfloat :: "npfloat \<Rightarrow> npfloat" where
  "uminus_npfloat (Fin a) = Fin (- a)"
| "uminus_npfloat PInf = NInf"
| "uminus_npfloat NInf = PInf"
| "uminus_npfloat NaN = NaN"

definition minus_npfloat :: "npfloat \<Rightarrow> npfloat \<Rightarrow> npfloat" where
  "minus_npfloat (a :: npfloat) b = (a + (- b) :: npfloat)"

text \<open>The sign of a value, for the products and quotients with an infinity.\<close>

fun np_sign :: "npfloat \<Rightarrow> int" where
  "np_sign (Fin a) = (if a < 0 then - 1 else if a = 0 then 0 else 1)"
| "np_sign PInf = 1"
| "np_sign NInf = - 1"
| "np_sign NaN = 0"

fun np_inf :: "int \<Rightarrow> npfloat" where
  "np_inf s = (if s < 0 then NInf else if s = 0 then NaN else PInf)"

fun times_npfloat :: "npfloat \<Rightarrow> npfloat \<Rightarrow> npfloat" where
  "times_npfloat NaN _ = NaN"
| "times_npfloat _ NaN = NaN"
| "times_npfloat (Fin a) (Fin b) = Fin (a * b)"
| "times_npfloat a b = np_inf (np_sign a * np_sign b)"

fun divide_npfloat :: "npfloat \<Rightarrow> npfloat \<Rightarrow> npfloat" where
  "divide_npfloat NaN _ = NaN"
| "divide_npfloat _ NaN = NaN"
| "divide_npfloat (Fin a) (Fin b) = (if b = 0 then np_inf (np_sign (Fin a)) else Fin (a / b))"
| "divide_npfloat (Fin a) _ = Fin 0"
| "divide_npfloat a (Fin b) = np_inf (np_sign a * (if b < 0 then - 1 else 1))"
| "divide_npfloat _ _ = NaN"

definition inverse_npfloat :: "npfloat \<Rightarrow> npfloat" where
  "inverse_npfloat (a :: npfloat) = (divide (Fin 1) a :: npfloat)"

fun abs_npfloat :: "npfloat \<Rightarrow> npfloat" where
  "abs_npfloat (Fin a) = Fin \<bar>a\<bar>"
| "abs_npfloat PInf = PInf"
| "abs_npfloat NInf = PInf"
| "abs_npfloat NaN = NaN"

text \<open>Every comparison with \<open>nan\<close> is false.\<close>

fun less_npfloat :: "npfloat \<Rightarrow> npfloat \<Rightarrow> bool" where
  "less_npfloat NaN _ = False"
| "less_npfloat _ NaN = False"
| "less_npfloat (Fin a) (Fin b) = (a < b)"
| "less_npfloat _ NInf = False"
| "less_npfloat PInf _ = False"
| "less_npfloat _ _ = True"

fun less_eq_npfloat :: "npfloat \<Rightarrow> npfloat \<Rightarrow> bool" where
  "less_eq_npfloat NaN _ = False"
| "less_eq_npfloat _ NaN = False"
| "less_eq_npfloat (Fin a) (Fin b) = (a \<le> b)"
| "less_eq_npfloat NInf _ = True"
| "less_eq_npfloat _ PInf = True"
| "less_eq_npfloat _ _ = False"

instance ..

end

fun np_sqrt :: "npfloat \<Rightarrow> npfloat" where
  "np_sqrt (Fin a) = (if a < 0 then NaN else Fin (sqrt a))"
| "np_sqrt PInf = PInf"
| "np_sqrt NInf = NaN"
| "np_sqrt NaN = NaN"

fun np_exp :: "npfloat \<Rightarrow> npfloat" where
  "np_exp (Fin a) = Fin (exp a)"
| "np_exp PInf = PInf"
| "np_exp NInf = Fin 0"
| "np_exp NaN = NaN"

fun np_log :: "npfloat \<Rightarrow> npfloat" where
  "np_log (Fin a) = (if a < 0 then NaN else if a = 0 then NInf else Fin (ln a))"
| "np_log PInf = PInf"
| "np_log NInf = NaN"
| "np_log NaN = NaN"

fun np_log2 :: "npfloat \<Rightarrow> npfloat" where
  "np_log2 (Fin a) = (if a < 0 then NaN else if a = 0 then NInf else Fin (log 2 a))"
| "np_log2 PInf = PInf"
| "np_log2 NInf = NaN"
| "np_log2 NaN = NaN"

text \<open>\<open>x ** 2\<close>.\<close>

definition sq :: "npfloat \<Rightarrow> npfloat" where
  "sq x = x * x"

fun is_nan :: "npfloat \<Rightarrow> bool" where
  "is_nan NaN = True"
| "is_nan _ = False"

fun is_finite :: "npfloat \<Rightarrow> bool" where
  "is_finite (Fin _) = True"
| "is_finite _ = False"

section \<open>Arrays\<close>

text \<open>
  A one-dimensional array is a list.  \<open>np.sum\<close> starts from zero and adds the elements;
  \<open>np.mean\<close> divides the sum by the number of elements, which is \<open>nan\<close> for the
  empty array.  A failed operation (a raised exception) is the value \<open>None\<close>.
\<close>

fun np_sum :: "npfloat list \<Rightarrow> npfloat" where
  "np_sum [] = 0"
| "np_sum (x # xs) = x + np_sum xs"

definition np_mean :: "npfloat list \<Rightarrow> npfloat" where
  "np_mean xs = np_sum xs / Fin (real (length xs))"

text \<open>
  An elementwise operation on two one-dimensional arrays broadcasts: the shapes must be
  equal, or one of the arrays has exactly one element, which is then repeated; any other
  pair of shapes raises ValueError.
\<close>

definition broadcast2 :: "('a \<Rightarrow> 'b \<Rightarrow> 'c) \<Rightarrow> 'a list \<Rightarrow> 'b list \<Rightarrow> 'c list option" where
  "broadcast2 f xs ys =
     (if length xs = length ys then Some (map2 f xs ys)
      else if length xs = 1 then Some (map (f (hd xs)) ys)
      else if length ys = 1 then Some (map (\<lambda>a. f a (hd ys)) xs)
      else None)"

section \<open>Correlation scorer\<close>

definition pearson_correlation :: "npfloat list \<Rightarrow> npfloat list \<Rightarrow> npfloat option" where
  "pearson_correlation x y =
     (let mean_x = np_mean x;
          mean_y = np_mean y;
          xc = map (\<lambda>a. a - mean_x) x;
          yc = map (\<lambda>b. b - mean_y) y
      in do {
        prods \<leftarrow> broadcast2 (*) xc yc;
        let numerator = np_sum prods;
        let denominator = np_sqrt (np_sum (map sq xc) * np_sum (map sq yc));
        Some (numerator / denominator)
      })"

section \<open>Feature selector\<close>

text \<open>
  A table is the ordered list of its named columns; the names are distinct.  A column
  holds numbers or, like the date column as it is loaded, strings.  The conversion
  \<open>pd.to_numeric(pd.to_datetime(_))\<close> is a library function and a parameter here; it
  fails on what it cannot parse.  Arithmetic on a column of strings raises TypeError.
\<close>

datatype column = Numeric "npfloat list" | Dates "string list"

type_synonym table = "(string \<times> column) list"

fun column_values :: "column \<Rightarrow> npfloat list option" where
  "column_values (Numeric xs) = Some xs"
| "column_values (Dates ds) = None"

text \<open>\<open>X[name] = col\<close>: an existing column keeps its place, a new one is appended.\<close>

fun set_column :: "string \<Rightarrow> column \<Rightarrow> table \<Rightarrow> table" where
  "set_column name c [] = [(name, c)]"
| "set_column name c ((n, c') # X) =
     (if n = name then (n, c) # X else (n, c') # set_column name c X)"

text \<open>
  \<open>list.sort(key=..., reverse=True)\<close> is stable, compares keys with \<open><\<close> only, and
  sorts as if each comparison were reversed.  It is modelled by the stable insertion
  sort with these three properties: an element is put in front of the first element
  whose key it is not smaller than.  On keys without \<open>nan\<close> every stable sort gives
  this result.  With a \<open>nan\<close> among the keys the result depends on the algorithm: the
  model agrees with the library on lists of at most two entries, and can differ from
  it on longer ones.
\<close>

fun insort_reverse :: "('a \<Rightarrow> npfloat) \<Rightarrow> 'a \<Rightarrow> 'a list \<Rightarrow> 'a list" where
  "insort_reverse key x [] = [x]"
| "insort_reverse key x (p # ps) =
     (if key x < key p then p # insort_reverse key x ps else x # p # ps)"

definition sort_reverse :: "('a \<Rightarrow> npfloat) \<Rightarrow> 'a list \<Rightarrow> 'a list" where
  "sort_reverse key xs = foldr (insort_reverse key) xs []"

text \<open>The slice \<open>xs[:n]\<close>; a negative \<open>n\<close> counts from the end.\<close>

definition slice_to :: "int \<Rightarrow> 'a list \<Rightarrow> 'a list" where
  "slice_to n xs = (if 0 \<le> n then take (nat n) xs else take (length xs - nat (- n)) xs)"

text \<open>The loop over \<open>X.columns\<close>, appending \<open>(feature, abs(corr))\<close>.\<close>

fun correlations_of :: "npfloat list \<Rightarrow> table \<Rightarrow> (string \<times> npfloat) list option" where
  "correlations_of y [] = Some []"
| "correlations_of y ((feature, col) # X) = do {
     x \<leftarrow> column_values col;
     corr \<leftarrow> pearson_correlation x y;
     rest \<leftarrow> correlations_of y X;
     Some ((feature, \<bar>corr\<bar>) # rest)
   }"

text \<open>
  \<open>feature_selection\<close> returns the list of names.  The assignment to \<open>X["date"]\<close>
  also changes the caller's table; a table without a date column raises KeyError.
\<close>

definition feature_selection ::
  "(column \<Rightarrow> npfloat list option) \<Rightarrow> table \<Rightarrow> npfloat list \<Rightarrow> int \<Rightarrow> string list option" where
  "feature_selection to_numeric_datetime X y n_features = do {
     date \<leftarrow> map_of X ''date'';
     nums \<leftarrow> to_numeric_datetime date;
     let X = set_column ''date'' (Numeric nums) X;
     correlations \<leftarrow> correlations_of y X;
     let correlations = sort_reverse snd correlations;
     Some (map fst (slice_to n_features correlations))
   }"

section \<open>The random generator\<close>

text \<open>
  NumPy's global generator is library code.  Its state is a value of type \<open>'g\<close> that
  every function drawing from it receives and returns, and its operations are the
  fields of a record: \<open>np.random.seed(s)\<close> replaces the state,
  \<open>np.random.random(n)\<close> draws n numbers, \<open>np.random.choice(n, k, replace=False)\<close>
  draws k indices (ValueError when it cannot), \<open>np.random.permutation(n)\<close> draws a
  permutation of \<open>range(n)\<close>.
\<close>

record 'g np_random =
  rng_seed :: "int \<Rightarrow> 'g"
  rng_random :: "nat \<Rightarrow> 'g \<Rightarrow> npfloat list \<times> 'g"
  rng_choice :: "nat \<Rightarrow> nat \<Rightarrow> 'g \<Rightarrow> (nat list \<times> 'g) option"
  rng_permutation :: "nat \<Rightarrow> 'g \<Rightarrow> nat list \<times> 'g"

text \<open>What the library promises of a draw.\<close>

definition choice_ok :: "'g np_random \<Rightarrow> bool" where
  "choice_ok R = (\<forall>n k g. k \<le> n \<longrightarrow>
     (\<exists>idx g'. rng_choice R n k g = Some (idx, g') \<and> length idx = k \<and> distinct idx
        \<and> (\<forall>i\<in>set idx. i < n)))"

definition permutation_ok :: "'g np_random \<Rightarrow> bool" where
  "permutation_ok R = (\<forall>n g. mset (fst (rng_permutation R n g)) = mset [0..<n])"

text \<open>Indexing with a list of positions, \<open>xs[idx]\<close>; IndexError out of range.\<close>

definition fancy_index :: "'a list \<Rightarrow> nat list \<Rightarrow> 'a list option" where
  "fancy_index xs idx =
     (if list_all (\<lambda>i. i < length xs) idx then Some (map (\<lambda>i. xs ! i) idx) else None)"



section \<open>Cross-validation\<close>






section \<open>Matrices and history lists\<close>

text \<open>
  A two-dimensional array is the list of its rows, all of one length.  A matrix with no
  rows is taken to have no columns.
\<close>

type_synonym matrix = "npfloat list list"

definition ncols :: "matrix \<Rightarrow> nat" where
  "ncols X = (case X of [] \<Rightarrow> 0 | r # _ \<Rightarrow> length r)"

definition column :: "matrix \<Rightarrow> nat \<Rightarrow> npfloat list" where
  "column X j = map (\<lambda>r. r ! j) X"

text \<open>The dot product of two vectors; ValueError when the shapes differ.\<close>

definition np_dot :: "npfloat list \<Rightarrow> npfloat list \<Rightarrow> npfloat option" where
  "np_dot xs ys = (if length xs = length ys then Some (np_sum (map2 (*) xs ys)) else None)"

text \<open>\<open>X.dot(v)\<close> and \<open>X.T.dot(v)\<close>.\<close>

definition mat_vec :: "matrix \<Rightarrow> npfloat list \<Rightarrow> npfloat list option" where
  "mat_vec X v = those (map (\<lambda>r. np_dot r v) X)"

definition matT_vec :: "matrix \<Rightarrow> npfloat list \<Rightarrow> npfloat list option" where
  "matT_vec X v = those (map (\<lambda>j. np_dot (column X j) v) [0..<ncols X])"

text \<open>\<open>xs[-n]\<close> for \<open>n > 0\<close>: the n-th element from the end, IndexError on a shorter list.\<close>

definition from_end :: "'a list \<Rightarrow> nat \<Rightarrow> 'a option" where
  "from_end xs n = (if 0 < n \<and> n \<le> length xs then Some (xs ! (length xs - n)) else None)"

text \<open>
  The early-stop test shared by both fit loops:
  \<open>i > 1 and (history[-2] - history[-1]) < eps\<close>; \<open>and\<close> does not evaluate its
  second operand when the first is false.
\<close>

definition early_stop :: "nat \<Rightarrow> npfloat list \<Rightarrow> npfloat \<Rightarrow> bool option" where
  "early_stop i history eps =
     (if 1 < i then do {
        previous \<leftarrow> from_end history 2;
        current \<leftarrow> from_end history 1;
        Some (previous - current < eps)
      } else Some False)"

section \<open>Logistic regression by gradient descent\<close>

record lr_state =
  lr_eta :: npfloat
  lr_n_iter :: nat
  lr_eps :: npfloat
  lr_random_state :: int
  theta :: "npfloat list option"
  Js :: "npfloat list"
  thetas :: "npfloat list list"

definition LogisticRegressionGD_init :: "npfloat \<Rightarrow> nat \<Rightarrow> npfloat \<Rightarrow> int \<Rightarrow> lr_state" where
  "LogisticRegressionGD_init eta n_iter eps random_state =
     \<lparr>lr_eta = eta, lr_n_iter = n_iter, lr_eps = eps, lr_random_state = random_state,
      theta = None, Js = [], thetas = []\<rparr>"

definition sigmoid :: "npfloat \<Rightarrow> npfloat" where
  "sigmoid z = 1 / (1 + np_exp (- z))"

definition cost_function :: "npfloat list \<Rightarrow> npfloat list \<Rightarrow> npfloat option" where
  "cost_function h y = do {
     let m = length h;
     a \<leftarrow> np_dot y (map np_log h);
     b \<leftarrow> np_dot (map (\<lambda>t. 1 - t) y) (map (\<lambda>t. np_log (1 - t)) h);
     Some ((a + b) / Fin (- real m))
   }"

definition apply_bias_trick :: "matrix \<Rightarrow> matrix" where
  "apply_bias_trick X = map (\<lambda>r. 1 # r) X"

text \<open>One pass of the loop body, up to and including the two appends.\<close>

definition lr_step :: "matrix \<Rightarrow> npfloat list \<Rightarrow> lr_state \<Rightarrow> lr_state option" where
  "lr_step X y st = do {
     th \<leftarrow> theta st;
     z \<leftarrow> mat_vec X th;
     let sigmoid = map sigmoid z;
     diff \<leftarrow> broadcast2 (-) sigmoid y;
     g \<leftarrow> matT_vec X diff;
     let gradient = map (\<lambda>t. lr_eta st * t) g;
     th \<leftarrow> broadcast2 (-) th gradient;
     let st = st\<lparr>theta := Some th, thetas := thetas st @ [th]\<rparr>;
     J \<leftarrow> cost_function sigmoid y;
     Some (st\<lparr>Js := Js st @ [J]\<rparr>)
   }"

fun lr_loop :: "matrix \<Rightarrow> npfloat list \<Rightarrow> nat list \<Rightarrow> lr_state \<Rightarrow> lr_state option" where
  "lr_loop X y [] st = Some st"
| "lr_loop X y (i # is) st = do {
     st \<leftarrow> lr_step X y st;
     stop \<leftarrow> early_stop i (Js st) (lr_eps st);
     if stop then Some st else lr_loop X y is st
   }"

definition lr_fit ::
  "'g np_random \<Rightarrow> lr_state \<Rightarrow> matrix \<Rightarrow> npfloat list \<Rightarrow> 'g \<Rightarrow> (lr_state \<times> 'g) option" where
  "lr_fit R st X y g = do {
     let g = rng_seed R (lr_random_state st);
     let X = apply_bias_trick X;
     let (th, g) = rng_random R (ncols X) g;
     st \<leftarrow> lr_loop X y [0..<lr_n_iter st] (st\<lparr>theta := Some th\<rparr>);
     Some (st, g)
   }"

definition lr_predict :: "lr_state \<Rightarrow> matrix \<Rightarrow> int list option" where
  "lr_predict st X = do {
     let X = apply_bias_trick X;
     th \<leftarrow> theta st;
     z \<leftarrow> mat_vec X th;
     let h_x = map sigmoid z;
     Some (map (\<lambda>h. if Fin (1 / 2) \<le> h then 1 else 0) h_x)
   }"

section \<open>Gaussian and mixture densities\<close>

definition norm_pdf :: "npfloat \<Rightarrow> npfloat \<Rightarrow> npfloat \<Rightarrow> npfloat" where
  "norm_pdf data mu sigma =
     (1 / (sigma * Fin (sqrt (2 * pi)))) * np_exp (- sq (data - mu) / (Fin 2 * sq sigma))"

text \<open>Python's \<open>sum\<close> adds from the left, starting at 0.\<close>

definition py_sum :: "npfloat list \<Rightarrow> npfloat" where
  "py_sum xs = foldl (+) 0 xs"

text \<open>
  \<open>gmm_pdf\<close> at one value.  The number of components is \<open>len(weights)\<close>; a shorter
  \<open>mus\<close> or \<open>sigmas\<close> raises IndexError.
\<close>

definition gmm_pdf ::
  "npfloat \<Rightarrow> npfloat list \<Rightarrow> npfloat list \<Rightarrow> npfloat list \<Rightarrow> npfloat option" where
  "gmm_pdf data weights mus sigmas =
     (let k = length weights in
      if k \<le> length mus \<and> k \<le> length sigmas
      then Some (py_sum (map (\<lambda>j. weights ! j * norm_pdf data (mus ! j) (sigmas ! j)) [0..<k]))
      else None)"

text \<open>\<open>gmm_pdf\<close> at an array of values, elementwise.\<close>

definition gmm_pdf_array ::
  "npfloat list \<Rightarrow> npfloat list \<Rightarrow> npfloat list \<Rightarrow> npfloat list \<Rightarrow> npfloat list option" where
  "gmm_pdf_array data weights mus sigmas =
     (let k = length weights in
      if k \<le> length mus \<and> k \<le> length sigmas
      then Some (map (\<lambda>d. py_sum (map (\<lambda>j. weights ! j * norm_pdf d (mus ! j) (sigmas ! j))
                                     [0..<k])) data)
      else None)"

section \<open>Expectation-maximisation for a one-dimensional mixture\<close>

text \<open>
  The responsibility matrix (m rows, k columns) is kept as the list of its k columns,
  which is how \<open>expectation\<close> builds it and how \<open>maximization\<close> reads it.  The attributes
  that \<open>__init__\<close> sets to \<open>None\<close> are empty lists here; reading them fails in both.
\<close>

record em_state =
  em_k :: nat
  em_n_iter :: nat
  em_eps :: npfloat
  em_random_state :: int
  responsibilities :: "npfloat list list"
  weights :: "npfloat list"
  mus :: "npfloat list"
  sigmas :: "npfloat list"
  costs :: "npfloat list"

text \<open>The constructor seeds the global generator.\<close>

definition EM_init :: "'g np_random \<Rightarrow> nat \<Rightarrow> nat \<Rightarrow> npfloat \<Rightarrow> int \<Rightarrow> em_state \<times> 'g" where
  "EM_init R k n_iter eps random_state =
     (\<lparr>em_k = k, em_n_iter = n_iter, em_eps = eps, em_random_state = random_state,
       responsibilities = [], weights = [], mus = [], sigmas = [], costs = []\<rparr>,
      rng_seed R random_state)"

definition np_std :: "npfloat list \<Rightarrow> npfloat" where
  "np_std data = np_sqrt (np_mean (map (\<lambda>x. sq \<bar>x - np_mean data\<bar>) data))"

definition init_params ::
  "'g np_random \<Rightarrow> npfloat list \<Rightarrow> em_state \<Rightarrow> 'g \<Rightarrow> (em_state \<times> 'g) option" where
  "init_params R data st g = do {
     let w = replicate (em_k st) (1 / Fin (real (em_k st)));
     (random_indices, g) \<leftarrow> rng_choice R (length data) (em_k st) g;
     m \<leftarrow> fancy_index data random_indices;
     let s = replicate (em_k st) (np_std data);
     Some (st\<lparr>weights := w, mus := m, sigmas := s\<rparr>, g)
   }"

text \<open>The loop of \<open>expectation\<close>: one likelihood column per component, in order.\<close>

fun likelihood_cols :: "npfloat list \<Rightarrow> em_state \<Rightarrow> nat list \<Rightarrow> npfloat list list option" where
  "likelihood_cols data st [] = Some []"
| "likelihood_cols data st (i # is) =
     (if i < length (weights st) \<and> i < length (mus st) \<and> i < length (sigmas st)
      then do {
        let likelihood_col_i =
          map (\<lambda>d. weights st ! i * norm_pdf d (mus st ! i) (sigmas st ! i)) data;
        rest \<leftarrow> likelihood_cols data st is;
        Some (likelihood_col_i # rest)
      } else None)"

definition row_sums :: "nat \<Rightarrow> npfloat list list \<Rightarrow> npfloat list" where
  "row_sums m cols = map (\<lambda>r. np_sum (map (\<lambda>col. col ! r) cols)) [0..<m]"

definition expectation :: "npfloat list \<Rightarrow> em_state \<Rightarrow> em_state option" where
  "expectation data st = do {
     cols \<leftarrow> likelihood_cols data st [0..<em_k st];
     let totals = row_sums (length data) cols;
     Some (st\<lparr>responsibilities := map (\<lambda>col. map2 (\<lambda>a b. a / b) col totals) cols\<rparr>)
   }"

text \<open>
  The loop of \<open>maximization\<close> that overwrites \<open>sigmas[i]\<close> for each component;
  \<open>R.T[i]\<close>, \<open>mus[i]\<close> and the assignment raise IndexError out of range.
\<close>

fun sigma_loop ::
  "npfloat list \<Rightarrow> npfloat list list \<Rightarrow> npfloat list \<Rightarrow> nat list \<Rightarrow> npfloat list
     \<Rightarrow> npfloat list option" where
  "sigma_loop data resp ms [] s = Some s"
| "sigma_loop data resp ms (i # is) s =
     (if i < length resp \<and> i < length ms \<and> i < length s
      then do {
        v \<leftarrow> np_dot (resp ! i) (map (\<lambda>d. sq (d - ms ! i)) data);
        sigma_loop data resp ms is (s[i := v])
      } else None)"

definition maximization :: "npfloat list \<Rightarrow> em_state \<Rightarrow> em_state option" where
  "maximization data st = do {
     let resp = responsibilities st;
     let m = Fin (real (length data));
     let w = map np_mean resp;
     dots \<leftarrow> those (map (\<lambda>col. np_dot col data) resp);
     let ms = map2 (\<lambda>wi d. (1 / (m * wi)) * d) w dots;
     s \<leftarrow> sigma_loop data resp ms [0..<em_k st] (sigmas st);
     s \<leftarrow> broadcast2 (\<lambda>wi si. np_sqrt ((1 / (m * wi)) * si)) w s;
     Some (st\<lparr>weights := w, mus := ms, sigmas := s\<rparr>)
   }"

text \<open>The cost of the current parameters: minus the sum of the log2 densities.\<close>

fun em_cost :: "em_state \<Rightarrow> npfloat list \<Rightarrow> npfloat \<Rightarrow> npfloat option" where
  "em_cost st [] cost = Some cost"
| "em_cost st (d # ds) cost = do {
     p \<leftarrow> gmm_pdf d (weights st) (mus st) (sigmas st);
     em_cost st ds (cost - np_log2 p)
   }"

text \<open>One pass of the loop body, up to and including the append.\<close>

definition em_step :: "npfloat list \<Rightarrow> em_state \<Rightarrow> em_state option" where
  "em_step data st = do {
     st \<leftarrow> expectation data st;
     st \<leftarrow> maximization data st;
     cost \<leftarrow> em_cost st data 0;
     Some (st\<lparr>costs := costs st @ [cost]\<rparr>)
   }"

fun em_loop :: "npfloat list \<Rightarrow> nat list \<Rightarrow> em_state \<Rightarrow> em_state option" where
  "em_loop data [] st = Some st"
| "em_loop data (i # is) st = do {
     st \<leftarrow> em_step data st;
     stop \<leftarrow> early_stop i (costs st) (em_eps st);
     if stop then Some st else em_loop data is st
   }"

definition em_fit ::
  "'g np_random \<Rightarrow> em_state \<Rightarrow> npfloat list \<Rightarrow> 'g \<Rightarrow> (em_state \<times> 'g) option" where
  "em_fit R st data g = do {
     (st, g) \<leftarrow> init_params R data st g;
     st \<leftarrow> em_loop data [0..<em_n_iter st] st;
     Some (st, g)
   }"

definition get_dist_params :: "em_state \<Rightarrow> npfloat list \<times> npfloat list \<times> npfloat list" where
  "get_dist_params st = (weights st, mus st, sigmas st)"

section \<open>Naive Bayes with per-feature mixtures\<close>

text \<open>
  A Python dict keeps its keys in insertion order: it is an association list with
  distinct keys.  \<open>d[key] = v\<close> keeps the place of an existing key and appends a new
  one; \<open>d[key]\<close> is \<open>map_of\<close>, KeyError on a missing key.
\<close>

fun dict_set :: "'k \<Rightarrow> 'v \<Rightarrow> ('k \<times> 'v) list \<Rightarrow> ('k \<times> 'v) list" where
  "dict_set key v [] = [(key, v)]"
| "dict_set key v ((k', v') # d) =
     (if k' = key then (k', v) # d else (k', v') # dict_set key v d)"

type_synonym dist = "npfloat list \<times> npfloat list \<times> npfloat list"

record nb_state =
  nb_k :: nat
  nb_random_state :: int
  prior :: "(int \<times> npfloat) list"
  dist_params :: "(int \<times> dist list) list"

definition NaiveBayesGaussian_init :: "nat \<Rightarrow> int \<Rightarrow> nb_state" where
  "NaiveBayesGaussian_init k random_state =
     \<lparr>nb_k = k, nb_random_state = random_state, prior = [], dist_params = []\<rparr>"

text \<open>\<open>np.unique(y)\<close>: the distinct labels, sorted.\<close>

definition np_unique :: "int list \<Rightarrow> int list" where
  "np_unique y = remdups (sort y)"

text \<open>\<open>X[mask]\<close> with a boolean mask; IndexError when the mask has another length.\<close>

definition mask_rows :: "'a list \<Rightarrow> bool list \<Rightarrow> 'a list option" where
  "mask_rows X keep =
     (if length keep = length X then Some (map fst (filter snd (zip X keep))) else None)"

text \<open>The division of two Python integers.\<close>

definition int_truediv :: "nat \<Rightarrow> nat \<Rightarrow> npfloat option" where
  "int_truediv a b = (if b = 0 then None else Some (Fin (real a / real b)))"

text \<open>
  The loop over the feature columns of one class: a new \<open>EM\<close> object (with its default
  \<open>n_iter=1000\<close> and \<open>eps=0.01\<close>) is built and fitted for every column.
\<close>

fun fit_features ::
  "'g np_random \<Rightarrow> nb_state \<Rightarrow> matrix \<Rightarrow> nat list \<Rightarrow> dist list \<Rightarrow> 'g
     \<Rightarrow> (dist list \<times> 'g) option" where
  "fit_features R nb sub_data [] params g = Some (params, g)"
| "fit_features R nb sub_data (j # js) params g = do {
     let (em, g) = EM_init R (nb_k nb) 1000 (Fin (1 / 100)) (nb_random_state nb);
     (em, g) \<leftarrow> em_fit R em (column sub_data j) g;
     fit_features R nb sub_data js (params @ [get_dist_params em]) g
   }"

fun fit_classes ::
  "'g np_random \<Rightarrow> matrix \<Rightarrow> int list \<Rightarrow> int list \<Rightarrow> nb_state \<Rightarrow> 'g
     \<Rightarrow> (nb_state \<times> 'g) option" where
  "fit_classes R X y [] nb g = Some (nb, g)"
| "fit_classes R X y (data_class # cs) nb g = do {
     let nb = nb\<lparr>dist_params := dict_set data_class [] (dist_params nb)\<rparr>;
     sub_data \<leftarrow> mask_rows X (map (\<lambda>l. l = data_class) y);
     p \<leftarrow> int_truediv (length sub_data) (length X);
     let nb = nb\<lparr>prior := dict_set data_class p (prior nb)\<rparr>;
     (params, g) \<leftarrow> fit_features R nb sub_data [0..<ncols sub_data] [] g;
     let nb = nb\<lparr>dist_params := dict_set data_class params (dist_params nb)\<rparr>;
     fit_classes R X y cs nb g
   }"

definition nb_fit ::
  "'g np_random \<Rightarrow> nb_state \<Rightarrow> matrix \<Rightarrow> int list \<Rightarrow> 'g \<Rightarrow> (nb_state \<times> 'g) option" where
  "nb_fit R nb X y g = fit_classes R X y (np_unique y) nb g"

text \<open>The loop over the feature columns in \<open>predict\<close>, for one class.\<close>

fun posterior_loop ::
  "nb_state \<Rightarrow> matrix \<Rightarrow> int \<Rightarrow> nat list \<Rightarrow> npfloat list \<Rightarrow> npfloat list option" where
  "posterior_loop nb X data_class [] column_posterior = Some column_posterior"
| "posterior_loop nb X data_class (j # js) column_posterior = do {
     params \<leftarrow> map_of (dist_params nb) data_class;
     (w, m, s) \<leftarrow> (if j < length params then Some (params ! j) else None);
     pdf \<leftarrow> gmm_pdf_array (column X j) w m s;
     posterior_loop nb X data_class js (map2 (*) column_posterior pdf)
   }"

definition posterior_column :: "nb_state \<Rightarrow> matrix \<Rightarrow> int \<Rightarrow> npfloat list option" where
  "posterior_column nb X data_class = do {
     column_posterior \<leftarrow> posterior_loop nb X data_class [0..<ncols X] (replicate (length X) 1);
     p \<leftarrow> map_of (prior nb) data_class;
     Some (map (\<lambda>v. v * p) column_posterior)
   }"

text \<open>
  \<open>np.argmax\<close> of one row: the running maximum is replaced when the next value is not
  \<open><=\<close> it, and a \<open>nan\<close> ends the search; the empty row raises ValueError.
\<close>

fun argmax_from :: "npfloat \<Rightarrow> nat \<Rightarrow> nat \<Rightarrow> npfloat list \<Rightarrow> nat" where
  "argmax_from mp max_ind i [] = max_ind"
| "argmax_from mp max_ind i (x # xs) =
     (if is_nan mp then max_ind
      else if \<not> (x \<le> mp) then argmax_from x i (i + 1) xs
      else argmax_from mp max_ind (i + 1) xs)"

fun np_argmax :: "npfloat list \<Rightarrow> nat option" where
  "np_argmax [] = None"
| "np_argmax (x # xs) = Some (argmax_from x 0 1 xs)"

text \<open>
  \<open>predict\<close>: one posterior column per key of \<open>prior\<close>, in the order of the keys, then
  the argmax of every row.  The posterior matrix is kept as the list of its columns;
  with no column at all \<open>np.argmax\<close> raises ValueError.
\<close>

definition nb_predict :: "nb_state \<Rightarrow> matrix \<Rightarrow> int list option" where
  "nb_predict nb X = do {
     postiriors_matrix \<leftarrow> those (map (posterior_column nb X) (map fst (prior nb)));
     preds \<leftarrow> (if postiriors_matrix = [] then None
               else those (map (\<lambda>r. np_argmax (map (\<lambda>col. col ! r) postiriors_matrix))
                            [0..<length X]));
     Some (map int preds)
   }"

text \<open>
  A stand-in for the date conversion, for the examples: numbers are kept, a date string
  is mapped to a number that depends on the string only.
\<close>

definition stand_in_conversion :: "column \<Rightarrow> npfloat list option" where
  "stand_in_conversion c =
     (case c of Numeric xs \<Rightarrow> Some xs | Dates ds \<Rightarrow> Some (map (\<lambda>d. Fin (real (length d))) ds))"

section \<open>Passes of a loop body\<close>

text \<open>
  \<open>passes n step s\<close> is the state after \<open>n\<close> passes of the loop body \<open>step\<close> from \<open>s\<close>,
  with no test between them; it fails when one of the passes fails.
\<close>

fun passes :: "nat \<Rightarrow> ('s \<Rightarrow> 's option) \<Rightarrow> 's \<Rightarrow> 's option" where
  "passes 0 step s = Some s"
| "passes (Suc n) step s = passes n step s \<bind> step"

text \<open>
  The stopping condition in the words of the specification, on a history that holds
  the cost of the pass just completed last: the iteration count exceeds 1 and the
  previous cost minus the current cost is less than \<open>eps\<close>.
\<close>

definition cost_drop_below :: "nat \<Rightarrow> npfloat list \<Rightarrow> npfloat \<Rightarrow> bool" where
  "cost_drop_below i history eps =
     (1 < i \<and> history ! (length history - 2) - history ! (length history - 1) < eps)"

text \<open>
  Whether a loop over \<open>range(n_iter)\<close> with body \<open>step\<close> meets the stopping condition
  in iteration \<open>i\<close>, counted from 0, when no earlier iteration has stopped it: after
  \<open>i + 1\<close> passes from the state \<open>s0\<close> the history \<open>hist\<close> fulfils the condition.
\<close>

definition stops_at ::
  "('s \<Rightarrow> 's option) \<Rightarrow> ('s \<Rightarrow> npfloat list) \<Rightarrow> ('s \<Rightarrow> npfloat) \<Rightarrow> 's \<Rightarrow> nat \<Rightarrow> bool" where
  "stops_at step hist eps s0 i =
     (case passes (Suc i) step s0 of
        None \<Rightarrow> False
      | Some s \<Rightarrow> cost_drop_below i (hist s) (eps s0))"

definition em_stops :: "npfloat list \<Rightarrow> em_state \<Rightarrow> nat \<Rightarrow> bool" where
  "em_stops data s0 i = stops_at (em_step data) costs em_eps s0 i"

definition lr_stops :: "matrix \<Rightarrow> npfloat list \<Rightarrow> lr_state \<Rightarrow> nat \<Rightarrow> bool" where
  "lr_stops X y s0 i = stops_at (lr_step X y) Js lr_eps s0 i"

text \<open>
  The shape shared by the two fit loops: a body \<open>step\<close> that appends one cost to the
  history \<open>hist\<close> and keeps \<open>eps\<close>, followed by the early-stop test.
\<close>

definition stop_loop ::
  "(nat list \<Rightarrow> 's \<Rightarrow> 's option) \<Rightarrow> ('s \<Rightarrow> 's option) \<Rightarrow> ('s \<Rightarrow> npfloat list) \<Rightarrow> ('s \<Rightarrow> npfloat)
     \<Rightarrow> bool" where
  "stop_loop loop step hist eps \<longleftrightarrow>
     (\<forall>s. loop [] s = Some s) \<and>
     (\<forall>i is s. loop (i # is) s =
        step s \<bind> (\<lambda>s'. early_stop i (hist s') (eps s') \<bind>
          (\<lambda>stop. if stop then Some s' else loop is s'))) \<and>
     (\<forall>s s'. step s = Some s' \<longrightarrow> (\<exists>c. hist s' = hist s @ [c]) \<and> eps s' = eps s)"

section \<open>A small generator for the examples\<close>

text \<open>
  A deterministic stand-in for the library's generator: the state is a counter, the seed
  sets it, and every draw advances it.
\<close>

definition example_random :: "nat np_random" where
  "example_random =
     \<lparr>rng_seed = (\<lambda>s. nat \<bar>s\<bar>),
      rng_random = (\<lambda>n g. (map (\<lambda>i. Fin (1 / real (g + i + 2))) [0..<n], g + n)),
      rng_choice = (\<lambda>n k g. if k \<le> n then Some (map (\<lambda>i. (g + i) mod n) [0..<k], g + k)
                              else None),
      rng_permutation = (\<lambda>n g. (rotate g [0..<n], Suc g))\<rparr>"

section \<open>Example inputs\<close>

text \<open>
  A mixture with one component fitted to two points, and a regression with learning
  rate 0 fitted to one instance: their costs stay constant, so both loops stop in the
  iteration with index 2.
\<close>

definition example_data :: "npfloat list" where
  "example_data = [Fin 0, Fin 2]"

definition example_em :: em_state where
  "example_em = fst (EM_init example_random 1 1000 (Fin (1 / 100)) 1991)"

definition example_em_fitted :: "nat \<Rightarrow> em_state" where
  "example_em_fitted n =
     example_em\<lparr>responsibilities := [[Fin 1, Fin 1]], weights := [Fin 1], mus := [Fin 1],
       sigmas := [Fin 1],
       costs := replicate n (Fin (- (2 * log 2 (exp (- (1 / 2)) / sqrt (2 * pi)))))\<rparr>"

definition example_lr :: lr_state where
  "example_lr = LogisticRegressionGD_init (Fin 0) 10000 (Fin (1 / 1000000)) 1"

definition example_lr_fitted :: "nat \<Rightarrow> lr_state" where
  "example_lr_fitted n =
     example_lr\<lparr>theta := Some [Fin (1 / 3), Fin (1 / 4)],
       thetas := replicate n [Fin (1 / 3), Fin (1 / 4)],
       Js := replicate n (Fin (- ln (1 - 1 / (1 + exp (- (1 / 3))))))\<rparr>"

text \<open>
  A classifier with one component per feature, fitted to one feature column in which
  both classes hold the values of \<open>example_data\<close>; and the same object fitted first to
  class 0 only and then to class 1 only.
\<close>

definition example_X :: matrix where
  "example_X = [[Fin 0], [Fin 2], [Fin 0], [Fin 2]]"

definition example_y :: "int list" where
  "example_y = [1, 1, 2, 2]"

definition example_nb :: nb_state where
  "example_nb = NaiveBayesGaussian_init 1 1991"

definition example_dist :: dist where
  "example_dist = ([Fin 1], [Fin 1], [Fin 1])"

definition example_nb_fitted :: nb_state where
  "example_nb_fitted =
     example_nb\<lparr>prior := [(1, Fin (1 / 2)), (2, Fin (1 / 2))],
       dist_params := [(1, [example_dist]), (2, [example_dist])]\<rparr>"



section \<open>The folds of the cross-validation, in the words of the specification\<close>

text \<open>
  Test block \<open>i\<close> (counted from 1) of size \<open>q\<close> is the contiguous range of shuffled
  positions from \<open>(i - 1) * q\<close> up to \<open>i * q\<close>; the training positions of fold \<open>i\<close> are
  all the other positions; the accuracy is the fraction of exact label matches, the
  number of matches divided by the number of labels.
\<close>

definition test_block :: "nat \<Rightarrow> nat \<Rightarrow> nat list" where
  "test_block q i = [(i - 1) * q..<i * q]"






section \<open>The feature selector\<close>

lemmas np_arith = zero_npfloat_def one_npfloat_def minus_npfloat_def inverse_npfloat_def sq_def
  np_mean_def broadcast2_def

lemma cex_p1: "pearson_correlation [Fin 10, Fin 10] [Fin 1, Fin 2] = Some NaN"
  by (simp add: pearson_correlation_def np_arith)

lemma cex_p2: "pearson_correlation [Fin 1, Fin 2] [Fin 1, Fin 2] = Some (Fin 1)"
  by (simp add: pearson_correlation_def np_arith real_sqrt_divide)

lemma cex: "feature_selection stand_in_conversion
     [(''date'', Dates [''2014-05-02'', ''2014-05-02'']), (''sqft'', Numeric [Fin 1, Fin 2])]
     [Fin 1, Fin 2] 1 = Some [''date'']"
  by (simp add: feature_selection_def stand_in_conversion_def cex_p1 cex_p2 sort_reverse_def slice_to_def)

lemma mset_insort_reverse: "mset (insort_reverse key x ps) = add_mset x (mset ps)"
  by (induction ps) auto

lemma mset_sort_reverse: "mset (sort_reverse key xs) = mset xs"
  unfolding sort_reverse_def by (induction xs) (auto simp: mset_insort_reverse)

lemma less_irrefl_np: "\<not> (x < (x::npfloat))"
  by (cases x) auto

lemma filter_insort_reverse:
  "filter (\<lambda>c. key c = v) (insort_reverse key x ps) =
     (if key x = v then x # filter (\<lambda>c. key c = v) ps else filter (\<lambda>c. key c = v) ps)"
  by (induction ps) (auto simp: less_irrefl_np)

lemma filter_sort_reverse:
  "filter (\<lambda>c. key c = v) (sort_reverse key xs) = filter (\<lambda>c. key c = v) xs"
  unfolding sort_reverse_def by (induction xs) (auto simp: filter_insort_reverse)

lemma not_less_np: "\<not> is_nan x \<Longrightarrow> \<not> is_nan y \<Longrightarrow> \<not> (x < y) \<Longrightarrow> y \<le> (x::npfloat)"
  by (cases x; cases y) auto

lemma less_imp_le_np: "x < y \<Longrightarrow> x \<le> (y::npfloat)"
  by (cases x; cases y) auto

lemma le_trans_np: "x \<le> y \<Longrightarrow> y \<le> z \<Longrightarrow> x \<le> (z::npfloat)"
  by (cases x; cases y; cases z) auto

lemma set_insort_reverse: "set (insort_reverse key x ps) = insert x (set ps)"
  by (induction ps) auto

lemma sorted_insort_reverse:
  "sorted_wrt (\<lambda>a b. key b \<le> key a) ps \<Longrightarrow> \<not> is_nan (key x) \<Longrightarrow> \<forall>p\<in>set ps. \<not> is_nan (key p)
   \<Longrightarrow> sorted_wrt (\<lambda>a b. key b \<le> key a) (insort_reverse key x ps)"
proof (induction ps)
  case Nil
  then show ?case by simp
next
  case (Cons p ps)
  show ?case
  proof (cases "key x < key p")
    case True
    with Cons show ?thesis
      by (auto simp: set_insort_reverse less_imp_le_np)
  next
    case False
    with Cons.prems have "key p \<le> key x" by (simp add: not_less_np)
    with Cons.prems False show ?thesis
      by (auto intro: le_trans_np)
  qed
qed

lemma sorted_sort_reverse:
  "\<forall>x\<in>set xs. \<not> is_nan (key x) \<Longrightarrow> sorted_wrt (\<lambda>a b. key b \<le> key a) (sort_reverse key xs)"
proof (induction xs)
  case Nil
  then show ?case by (simp add: sort_reverse_def)
next
  case (Cons x xs)
  have "set (foldr (insort_reverse key) xs []) = set xs"
    using mset_sort_reverse[of key xs] unfolding sort_reverse_def by (metis set_mset_mset)
  with Cons show ?case
    unfolding sort_reverse_def by (auto intro!: sorted_insort_reverse)
qed


lemma correlations_of_columns:
  "correlations_of y X = Some cs \<Longrightarrow>
   list_all2 (\<lambda>(name, col) (name', v). name' = name \<and>
      (\<exists>x r. column_values col = Some x \<and> pearson_correlation x y = Some r \<and> v = \<bar>r\<bar>)) X cs"
proof (induction X arbitrary: cs)
  case Nil
  then show ?case by simp
next
  case (Cons a X)
  obtain name col where a: "a = (name, col)" by (cases a)
  from Cons.prems obtain x r rest where
    "column_values col = Some x" "pearson_correlation x y = Some r"
    "correlations_of y X = Some rest" "cs = (name, \<bar>r\<bar>) # rest"
    by (auto simp: a bind_eq_Some_conv)
  with Cons.IH[of rest] show ?case by (simp add: a)
qed

lemma sorted_wrt_take_drop:
  "sorted_wrt P xs \<Longrightarrow> \<forall>a\<in>set (take n xs). \<forall>b\<in>set (drop n xs). P a b"
  by (metis append_take_drop_id sorted_wrt_append)

text \<open>
  Claim C8, amended.  Let the table have a date column that converts, let every column
  have a correlation with \<open>y\<close>, and let none of these be \<open>nan\<close>; let
  \<open>n_features\<close> be a count.  Then \<open>feature_selection\<close> returns the names of the first
  \<open>n_features\<close> entries of the ranking \<open>sort_reverse snd cs\<close>, where \<open>cs\<close> pairs every
  column, in the table's order, with its absolute correlation against \<open>y\<close>.  The ranking
  is a rearrangement of \<open>cs\<close> in descending order of absolute correlation, columns of
  equal absolute correlation keep the table's order, and no column left out has a
  larger absolute correlation than a column returned.
\<close>

theorem feature_selection_ranked:
  assumes "map_of X ''date'' = Some d" and "conv d = Some nums"
    and "correlations_of y (set_column ''date'' (Numeric nums) X) = Some cs"
    and "\<forall>c\<in>set cs. \<not> is_nan (snd c)" and "0 \<le> n"
  shows "feature_selection conv X y n = Some (map fst (take (nat n) (sort_reverse snd cs)))
     \<and> mset (sort_reverse snd cs) = mset cs
     \<and> sorted_wrt (\<lambda>a b. snd b \<le> snd a) (sort_reverse snd cs)
     \<and> (\<forall>v. filter (\<lambda>c. snd c = v) (sort_reverse snd cs) = filter (\<lambda>c. snd c = v) cs)
     \<and> (\<forall>a\<in>set (take (nat n) (sort_reverse snd cs)).
          \<forall>b\<in>set (drop (nat n) (sort_reverse snd cs)). snd b \<le> snd a)
     \<and> list_all2 (\<lambda>(name, col) (name', v). name' = name \<and>
          (\<exists>x r. column_values col = Some x \<and> pearson_correlation x y = Some r \<and> v = \<bar>r\<bar>))
          (set_column ''date'' (Numeric nums) X) cs"
proof -
  have 1: "feature_selection conv X y n = Some (map fst (take (nat n) (sort_reverse snd cs)))"
    using assms by (simp add: feature_selection_def slice_to_def)
  have 2: "sorted_wrt (\<lambda>a b. snd b \<le> snd a) (sort_reverse snd cs)"
    using assms(4) by (rule sorted_sort_reverse)
  show ?thesis
    using 1 2 sorted_wrt_take_drop[OF 2] correlations_of_columns[OF assms(3)]
    by (simp add: mset_sort_reverse filter_sort_reverse)
qed

lemma w_p1: "pearson_correlation [Fin 1, Fin 3, Fin 2] [Fin 1, Fin 2, Fin 3] = Some (Fin (1 / 2))"
  by (simp add: pearson_correlation_def np_arith real_sqrt_divide)

lemma w_p2: "pearson_correlation [Fin 1, Fin 2, Fin 3] [Fin 1, Fin 2, Fin 3] = Some (Fin 1)"
  by (simp add: pearson_correlation_def np_arith real_sqrt_divide)

lemma w_p3: "pearson_correlation [Fin 3, Fin 2, Fin 1] [Fin 1, Fin 2, Fin 3] = Some (Fin (- 1))"
  by (simp add: pearson_correlation_def np_arith real_sqrt_divide)

theorem feature_selection_ranked_witness:
  "map_of [(''b'', Numeric [Fin 1, Fin 3, Fin 2]), (''date'', Numeric [Fin 1, Fin 2, Fin 3]),
           (''a'', Numeric [Fin 3, Fin 2, Fin 1])] ''date'' = Some (Numeric [Fin 1, Fin 2, Fin 3])
   \<and> stand_in_conversion (Numeric [Fin 1, Fin 2, Fin 3]) = Some [Fin 1, Fin 2, Fin 3]
   \<and> correlations_of [Fin 1, Fin 2, Fin 3]
        (set_column ''date'' (Numeric [Fin 1, Fin 2, Fin 3])
           [(''b'', Numeric [Fin 1, Fin 3, Fin 2]), (''date'', Numeric [Fin 1, Fin 2, Fin 3]),
            (''a'', Numeric [Fin 3, Fin 2, Fin 1])])
      = Some [(''b'', Fin (1 / 2)), (''date'', Fin 1), (''a'', Fin 1)]
   \<and> (0::int) \<le> 2
   \<and> feature_selection stand_in_conversion
        [(''b'', Numeric [Fin 1, Fin 3, Fin 2]), (''date'', Numeric [Fin 1, Fin 2, Fin 3]),
         (''a'', Numeric [Fin 3, Fin 2, Fin 1])] [Fin 1, Fin 2, Fin 3] 2
      = Some [''date'', ''a'']"
proof -
  let ?X = "[(''b'', Numeric [Fin 1, Fin 3, Fin 2]), (''date'', Numeric [Fin 1, Fin 2, Fin 3]),
           (''a'', Numeric [Fin 3, Fin 2, Fin 1])]"
  have h1: "map_of ?X ''date'' = Some (Numeric [Fin 1, Fin 2, Fin 3])" by simp
  have h2: "stand_in_conversion (Numeric [Fin 1, Fin 2, Fin 3]) = Some [Fin 1, Fin 2, Fin 3]"
    by (simp add: stand_in_conversion_def)
  have h3: "correlations_of [Fin 1, Fin 2, Fin 3]
        (set_column ''date'' (Numeric [Fin 1, Fin 2, Fin 3]) ?X)
      = Some [(''b'', Fin (1 / 2)), (''date'', Fin 1), (''a'', Fin 1)]"
    by (simp add: w_p1 w_p2 w_p3)
  have h4: "\<forall>c\<in>set [(''b'', Fin (1 / 2)), (''date'', Fin 1), (''a'', Fin 1)]. \<not> is_nan (snd c)"
    by simp
  have h5: "(0::int) \<le> 2" by simp
  have s: "take (nat 2) (sort_reverse snd [(''b'', Fin (1 / 2)), (''date'', Fin 1), (''a'', Fin 1)])
      = [(''date'', Fin 1), (''a'', Fin 1)]"
    by (simp add: sort_reverse_def)
  from feature_selection_ranked[where conv = stand_in_conversion, OF h1 h2 h3 h4 h5] h1 h2 h3 show ?thesis
    by (simp only: s list.map fst_conv) simp
qed

text \<open>
  With a \<open>nan\<close> among the correlations the claim fails: every date of the table below
  is the same, the correlation of the date column is \<open>nan\<close>, and for one requested
  feature the function returns the date column although the other column has
  absolute correlation 1, which is not below \<open>nan\<close>.
\<close>

theorem feature_selection_nan_counterexample:
  "feature_selection stand_in_conversion
     [(''date'', Dates [''2014-05-02'', ''2014-05-02'']), (''sqft'', Numeric [Fin 1, Fin 2])]
     [Fin 1, Fin 2] 1 = Some [''date'']
   \<and> correlations_of [Fin 1, Fin 2]
       (set_column ''date'' (Numeric [Fin 10, Fin 10])
          [(''date'', Dates [''2014-05-02'', ''2014-05-02'']), (''sqft'', Numeric [Fin 1, Fin 2])])
     = Some [(''date'', NaN), (''sqft'', Fin 1)]
   \<and> \<not> (Fin 1 \<le> NaN)"
  by (simp add: feature_selection_def stand_in_conversion_def cex_p1 cex_p2 sort_reverse_def
      slice_to_def)

section \<open>The fit loops and their early stop\<close>

lemma passes_None: "passes a step s = None \<Longrightarrow> a \<le> b \<Longrightarrow> passes b step s = None"
  by (induction b) (auto simp: le_Suc_eq)

lemma passes_Some_prefix:
  "passes b step s = Some t \<Longrightarrow> a \<le> b \<Longrightarrow> \<exists>u. passes a step s = Some u"
  using passes_None by (metis not_Some_eq option.distinct(1))

lemma early_stop_eq:
  "2 \<le> length h \<Longrightarrow> early_stop i h eps = Some (cost_drop_below i h eps)"
  by (auto simp: early_stop_def from_end_def cost_drop_below_def)

lemma early_stop_low: "i \<le> 1 \<Longrightarrow> early_stop i h eps = Some False"
  by (simp add: early_stop_def)

lemma early_stop_fit:
  assumes "i < length h"
  shows "early_stop i h eps = Some (cost_drop_below i h eps)"
proof (cases "1 < i")
  case True
  with assms show ?thesis by (simp add: early_stop_eq)
next
  case False
  then show ?thesis by (simp add: early_stop_low cost_drop_below_def)
qed

lemma passes_hist:
  assumes "stop_loop loop step hist eps" "passes a step s0 = Some s"
  shows "\<exists>cs. hist s = hist s0 @ cs \<and> length cs = a \<and> eps s = eps s0"
  using assms(2)
proof (induction a arbitrary: s)
  case 0
  then show ?case by simp
next
  case (Suc a)
  then obtain u where u: "passes a step s0 = Some u" "step u = Some s"
    by (auto simp: bind_eq_Some_conv)
  from Suc.IH[OF u(1)] obtain cs where cs: "hist u = hist s0 @ cs" "length cs = a" "eps u = eps s0" by auto
  from assms(1) u(2) obtain c where "hist s = hist u @ [c]" "eps s = eps u"
    unfolding stop_loop_def by blast
  with cs show ?case by simp
qed

lemma loop_step:
  assumes L: "stop_loop loop step hist eps" and Q: "passes a step s0 = Some s" and "a < n"
  shows "loop [a..<n] s =
     (case passes (Suc a) step s0 of None \<Rightarrow> None
      | Some s' \<Rightarrow> if stops_at step hist eps s0 a then Some s' else loop [Suc a..<n] s')"
proof (cases "step s")
  case None
  with Q have "passes (Suc a) step s0 = None" by simp
  moreover have "loop [a..<n] s = None"
    using L None \<open>a < n\<close> unfolding stop_loop_def by (simp add: upt_conv_Cons)
  ultimately show ?thesis by simp
next
  case (Some s')
  with Q have p: "passes (Suc a) step s0 = Some s'" by simp
  from passes_hist[OF L p] obtain cs where cs: "hist s' = hist s0 @ cs" "length cs = Suc a" "eps s' = eps s0"
    by auto
  then have "a < length (hist s')" by simp
  then have e: "early_stop a (hist s') (eps s') = Some (cost_drop_below a (hist s') (eps s0))"
    using cs(3) by (simp add: early_stop_fit)
  have "loop [a..<n] s = (if cost_drop_below a (hist s') (eps s0) then Some s' else loop [Suc a..<n] s')"
    using L Some \<open>a < n\<close> e unfolding stop_loop_def by (simp add: upt_conv_Cons)
  with p show ?thesis by (simp add: stops_at_def)
qed

lemma loop_stops_first:
  assumes L: "stop_loop loop step hist eps"
    and "passes a step s0 = Some s" "a \<le> j" "j < n"
    and "\<forall>i. a \<le> i \<and> i < j \<longrightarrow> \<not> stops_at step hist eps s0 i"
    and "stops_at step hist eps s0 j"
  shows "loop [a..<n] s = passes (Suc j) step s0"
  using assms(2-5)
proof (induction "j - a" arbitrary: a s)
  case 0
  then have "a = j" by simp
  with 0 assms(6) loop_step[OF L "0.prems"(1), of n] show ?case
    by (auto simp: stops_at_def split: option.splits)
next
  case (Suc d)
  then have lt: "a < j" "a < n" by auto
  from assms(6) obtain t where "passes (Suc j) step s0 = Some t"
    by (auto simp: stops_at_def split: option.splits)
  with passes_Some_prefix[of "Suc j" step s0 t "Suc a"] lt obtain s' where
    s': "passes (Suc a) step s0 = Some s'" by auto
  have ns: "\<not> stops_at step hist eps s0 a" using Suc.prems lt by simp
  have "loop [a..<n] s = loop [Suc a..<n] s'"
    using loop_step[OF L Suc.prems(1) lt(2)] s' ns by simp
  also have "\<dots> = passes (Suc j) step s0"
    using Suc.hyps(1)[of "Suc a" s'] Suc.hyps(2) s' Suc.prems lt by auto
  finally show ?case .
qed

lemma loop_never_stops:
  assumes L: "stop_loop loop step hist eps"
    and "passes a step s0 = Some s" "a \<le> n"
    and "\<forall>i. a \<le> i \<and> i < n \<longrightarrow> \<not> stops_at step hist eps s0 i"
  shows "loop [a..<n] s = passes n step s0"
  using assms(2-4)
proof (induction "n - a" arbitrary: a s)
  case 0
  then have "a = n" by simp
  with 0 L show ?case unfolding stop_loop_def by simp
next
  case (Suc d)
  then have lt: "a < n" by auto
  have ns: "\<not> stops_at step hist eps s0 a" using Suc.prems lt by simp
  show ?case
  proof (cases "passes (Suc a) step s0")
    case None
    then have "passes n step s0 = None" using passes_None[of "Suc a" step s0 n] lt by simp
    with None loop_step[OF L Suc.prems(1) lt] show ?thesis by simp
  next
    case (Some s')
    have "loop [a..<n] s = loop [Suc a..<n] s'"
      using loop_step[OF L Suc.prems(1) lt] Some ns by simp
    also have "\<dots> = passes n step s0"
      using Suc.hyps(1)[of "Suc a" s'] Suc.hyps(2) Some Suc.prems lt by auto
    finally show ?thesis .
  qed
qed


lemma expectation_frame:
  "expectation data st = Some st' \<Longrightarrow> st' = st\<lparr>responsibilities := responsibilities st'\<rparr>"
  by (auto simp: expectation_def bind_eq_Some_conv Let_def)

lemma maximization_frame:
  "maximization data st = Some st' \<Longrightarrow>
   st' = st\<lparr>weights := weights st', mus := mus st', sigmas := sigmas st'\<rparr>"
  by (auto simp: maximization_def bind_eq_Some_conv Let_def)

lemma em_step_frame:
  assumes "em_step data st = Some st'"
  shows "\<exists>c. costs st' = costs st @ [c]" "em_eps st' = em_eps st" "em_k st' = em_k st"
    "em_n_iter st' = em_n_iter st" "em_random_state st' = em_random_state st"
proof -
  from assms obtain s1 s2 c where s: "expectation data st = Some s1" "maximization data s1 = Some s2"
    "st' = s2\<lparr>costs := costs s2 @ [c]\<rparr>"
    by (auto simp: em_step_def bind_eq_Some_conv)
  from expectation_frame[OF s(1)] maximization_frame[OF s(2)]
  have e: "costs s2 = costs st" "em_eps s2 = em_eps st" "em_k s2 = em_k st"
    "em_n_iter s2 = em_n_iter st" "em_random_state s2 = em_random_state st"
    by (metis em_state.select_convs em_state.surjective em_state.update_convs)+
  with s(3) show "\<exists>c. costs st' = costs st @ [c]" "em_eps st' = em_eps st" "em_k st' = em_k st"
    "em_n_iter st' = em_n_iter st" "em_random_state st' = em_random_state st"
    by simp_all
qed

lemma em_stop_loop: "stop_loop (em_loop data) (em_step data) costs em_eps"
  unfolding stop_loop_def using em_step_frame(1,2) by auto

lemma lr_step_frame:
  assumes "lr_step X y st = Some st'"
  shows "\<exists>c. Js st' = Js st @ [c]" "\<exists>t. thetas st' = thetas st @ [t] \<and> theta st' = Some t"
    "lr_eps st' = lr_eps st" "lr_eta st' = lr_eta st"
    "lr_n_iter st' = lr_n_iter st" "lr_random_state st' = lr_random_state st"
  using assms by (auto simp: lr_step_def bind_eq_Some_conv Let_def)

lemma lr_stop_loop: "stop_loop (lr_loop X y) (lr_step X y) Js lr_eps"
  unfolding stop_loop_def using lr_step_frame(1,3) by auto

lemma init_params_frame:
  "init_params R data st g = Some (s0, g') \<Longrightarrow>
   costs s0 = costs st \<and> em_eps s0 = em_eps st \<and> em_n_iter s0 = em_n_iter st \<and> em_k s0 = em_k st
   \<and> em_random_state s0 = em_random_state st"
  by (auto simp: init_params_def bind_eq_Some_conv Let_def split: prod.splits)

lemma increase_stops:
  "previous < current \<Longrightarrow> 0 \<le> eps \<Longrightarrow> previous - current < (eps :: npfloat)"
  by (cases previous; cases current; cases eps) (auto simp: np_arith)

lemma em_fit_loop:
  assumes "init_params R data st g = Some (s0, g')"
  shows "em_fit R st data g = map_option (\<lambda>s. (s, g')) (em_loop data [0..<em_n_iter st] s0)"
  using assms init_params_frame[OF assms]
  by (cases "em_loop data [0..<em_n_iter st] s0") (simp_all add: em_fit_def)

lemma lr_fit_loop:
  assumes "rng_random R (ncols (apply_bias_trick X)) (rng_seed R (lr_random_state lr)) = (th, g')"
  shows "lr_fit R lr X y g =
     map_option (\<lambda>s. (s, g')) (lr_loop (apply_bias_trick X) y [0..<lr_n_iter lr] (lr\<lparr>theta := Some th\<rparr>))"
  using assms
  by (cases "lr_loop (apply_bias_trick X) y [0..<lr_n_iter lr] (lr\<lparr>theta := Some th\<rparr>)")
    (simp_all add: lr_fit_def Let_def)

text \<open>
  Claim C2.  Both fit loops stop early exactly when the stopping condition holds: if
  iteration \<open>j\<close> (counted from 0, below \<open>n_iter\<close>) is the first in which the iteration
  count exceeds 1 and the previous cost minus the current cost is less than \<open>eps\<close>, the
  fit ends after the \<open>j + 1\<close> passes of that iteration; if there is no such iteration it
  runs all \<open>n_iter\<close> passes.  This holds for \<open>EM.fit\<close> after \<open>init_params\<close> and for
  \<open>LogisticRegressionGD.fit\<close> after the draw of the initial \<open>theta\<close>.  In particular
  the condition holds when the cost has increased and \<open>eps\<close> is not negative: the
  difference is negative and therefore less than \<open>eps\<close>.
\<close>

theorem fit_stops_exactly:
  "(init_params R data st g = Some (s0, g') \<longrightarrow>
      (\<forall>j. j < em_n_iter st \<and> (\<forall>i<j. \<not> em_stops data s0 i) \<and> em_stops data s0 j \<longrightarrow>
         em_fit R st data g = map_option (\<lambda>s. (s, g')) (passes (Suc j) (em_step data) s0))
    \<and> ((\<forall>i<em_n_iter st. \<not> em_stops data s0 i) \<longrightarrow>
         em_fit R st data g = map_option (\<lambda>s. (s, g')) (passes (em_n_iter st) (em_step data) s0)))
   \<and> (rng_random R (ncols (apply_bias_trick X)) (rng_seed R (lr_random_state lr)) = (th, g'') \<longrightarrow>
      (\<forall>j. j < lr_n_iter lr \<and> (\<forall>i<j. \<not> lr_stops (apply_bias_trick X) y (lr\<lparr>theta := Some th\<rparr>) i)
            \<and> lr_stops (apply_bias_trick X) y (lr\<lparr>theta := Some th\<rparr>) j \<longrightarrow>
         lr_fit R lr X y g0 = map_option (\<lambda>s. (s, g''))
            (passes (Suc j) (lr_step (apply_bias_trick X) y) (lr\<lparr>theta := Some th\<rparr>)))
    \<and> ((\<forall>i<lr_n_iter lr. \<not> lr_stops (apply_bias_trick X) y (lr\<lparr>theta := Some th\<rparr>) i) \<longrightarrow>
         lr_fit R lr X y g0 = map_option (\<lambda>s. (s, g''))
            (passes (lr_n_iter lr) (lr_step (apply_bias_trick X) y) (lr\<lparr>theta := Some th\<rparr>))))
   \<and> (1 < i \<and> previous < current \<and> 0 \<le> eps \<longrightarrow>
        cost_drop_below i (h @ [previous, current]) eps)"
proof (intro conjI impI allI)
  fix j
  assume i: "init_params R data st g = Some (s0, g')"
    and j: "j < em_n_iter st \<and> (\<forall>i<j. \<not> em_stops data s0 i) \<and> em_stops data s0 j"
  have "em_loop data [0..<em_n_iter st] s0 = passes (Suc j) (em_step data) s0"
    using j by (intro loop_stops_first[OF em_stop_loop]) (simp_all add: em_stops_def)
  with em_fit_loop[OF i] show "em_fit R st data g =
      map_option (\<lambda>s. (s, g')) (passes (Suc j) (em_step data) s0)" by simp
next
  assume i: "init_params R data st g = Some (s0, g')"
    and n: "\<forall>i<em_n_iter st. \<not> em_stops data s0 i"
  have "em_loop data [0..<em_n_iter st] s0 = passes (em_n_iter st) (em_step data) s0"
    using n by (intro loop_never_stops[OF em_stop_loop]) (simp_all add: em_stops_def)
  with em_fit_loop[OF i] show "em_fit R st data g =
      map_option (\<lambda>s. (s, g')) (passes (em_n_iter st) (em_step data) s0)" by simp
next
  fix j
  let ?X = "apply_bias_trick X" and ?s = "lr\<lparr>theta := Some th\<rparr>"
  assume i: "rng_random R (ncols ?X) (rng_seed R (lr_random_state lr)) = (th, g'')"
    and j: "j < lr_n_iter lr \<and> (\<forall>i<j. \<not> lr_stops ?X y ?s i) \<and> lr_stops ?X y ?s j"
  have "lr_loop ?X y [0..<lr_n_iter lr] ?s = passes (Suc j) (lr_step ?X y) ?s"
    using j by (intro loop_stops_first[OF lr_stop_loop]) (simp_all add: lr_stops_def)
  with lr_fit_loop[OF i] show "lr_fit R lr X y g0 =
      map_option (\<lambda>s. (s, g'')) (passes (Suc j) (lr_step ?X y) ?s)" by simp
next
  let ?X = "apply_bias_trick X" and ?s = "lr\<lparr>theta := Some th\<rparr>"
  assume i: "rng_random R (ncols ?X) (rng_seed R (lr_random_state lr)) = (th, g'')"
    and n: "\<forall>i<lr_n_iter lr. \<not> lr_stops ?X y ?s i"
  have "lr_loop ?X y [0..<lr_n_iter lr] ?s = passes (lr_n_iter lr) (lr_step ?X y) ?s"
    using n by (intro loop_never_stops[OF lr_stop_loop]) (simp_all add: lr_stops_def)
  with lr_fit_loop[OF i] show "lr_fit R lr X y g0 =
      map_option (\<lambda>s. (s, g'')) (passes (lr_n_iter lr) (lr_step ?X y) ?s)" by simp
next
  assume "1 < i \<and> previous < current \<and> 0 \<le> eps"
  then show "cost_drop_below i (h @ [previous, current]) eps"
    by (simp add: cost_drop_below_def increase_stops nth_append)
qed

section \<open>The histories\<close>

lemma loop_passes:
  assumes L: "stop_loop loop step hist eps" and "loop [0..<n] s = Some t"
  shows "\<exists>j\<le>n. passes j step s = Some t"
proof (cases "\<exists>i<n. stops_at step hist eps s i")
  case True
  then obtain j where j: "j < n" "stops_at step hist eps s j"
    "\<forall>i<j. \<not> (i < n \<and> stops_at step hist eps s i)"
    using exists_least_iff[of "\<lambda>i. i < n \<and> stops_at step hist eps s i"] by auto
  have "loop [0..<n] s = passes (Suc j) step s"
    using j by (intro loop_stops_first[OF L]) auto
  with assms(2) j(1) show ?thesis by (intro exI[of _ "Suc j"]) simp
next
  case False
  have "loop [0..<n] s = passes n step s"
    using False by (intro loop_never_stops[OF L]) auto
  with assms(2) show ?thesis by auto
qed

lemma passes_thetas:
  "passes j (lr_step X y) s = Some t \<Longrightarrow> \<exists>ts. thetas t = thetas s @ ts \<and> length ts = j"
proof (induction j arbitrary: t)
  case 0
  then show ?case by simp
next
  case (Suc j)
  then obtain u where u: "passes j (lr_step X y) s = Some u" "lr_step X y u = Some t"
    by (auto simp: bind_eq_Some_conv)
  from Suc.IH[OF u(1)] lr_step_frame(2)[OF u(2)] show ?case by auto
qed

lemma passes_lr_n_iter:
  "passes j (lr_step X y) s = Some t \<Longrightarrow> lr_n_iter t = lr_n_iter s"
proof (induction j arbitrary: t)
  case 0
  then show ?case by simp
next
  case (Suc j)
  then obtain u where u: "passes j (lr_step X y) s = Some u" "lr_step X y u = Some t"
    by (auto simp: bind_eq_Some_conv)
  from Suc.IH[OF u(1)] lr_step_frame(5)[OF u(2)] show ?case by simp
qed

lemma em_fit_passes:
  assumes "em_fit R st d g = Some (st', g')"
  shows "\<exists>s0 j cs. init_params R d st g = Some (s0, g') \<and> passes j (em_step d) s0 = Some st'
     \<and> j \<le> em_n_iter st \<and> costs st' = costs st @ cs \<and> length cs = j"
proof -
  from assms obtain s0 where i: "init_params R d st g = Some (s0, g')"
    and l: "em_loop d [0..<em_n_iter s0] s0 = Some st'"
    by (auto simp: em_fit_def bind_eq_Some_conv)
  note f = init_params_frame[OF i]
  from loop_passes[OF em_stop_loop l] obtain j where j: "j \<le> em_n_iter s0"
    "passes j (em_step d) s0 = Some st'" by auto
  from passes_hist[OF em_stop_loop j(2)] obtain cs where "costs st' = costs s0 @ cs" "length cs = j"
    by auto
  with i j f show ?thesis by auto
qed

lemma lr_fit_passes:
  assumes "lr_fit R st X y g = Some (st', g')"
  shows "\<exists>th j cs ts. rng_random R (ncols (apply_bias_trick X)) (rng_seed R (lr_random_state st)) = (th, g')
     \<and> passes j (lr_step (apply_bias_trick X) y) (st\<lparr>theta := Some th\<rparr>) = Some st'
     \<and> j \<le> lr_n_iter st \<and> Js st' = Js st @ cs \<and> length cs = j
     \<and> thetas st' = thetas st @ ts \<and> length ts = j"
proof -
  obtain th ga where r: "rng_random R (ncols (apply_bias_trick X)) (rng_seed R (lr_random_state st)) = (th, ga)"
    by (cases "rng_random R (ncols (apply_bias_trick X)) (rng_seed R (lr_random_state st))")
  from assms lr_fit_loop[OF r, of y g] have ga: "ga = g'"
    and l: "lr_loop (apply_bias_trick X) y [0..<lr_n_iter st] (st\<lparr>theta := Some th\<rparr>) = Some st'"
    by auto
  from loop_passes[OF lr_stop_loop l] obtain j where j: "j \<le> lr_n_iter st"
    "passes j (lr_step (apply_bias_trick X) y) (st\<lparr>theta := Some th\<rparr>) = Some st'" by auto
  from passes_hist[OF lr_stop_loop j(2)] obtain cs where "Js st' = Js st @ cs" "length cs = j"
    by auto
  moreover from passes_thetas[OF j(2)] obtain ts where "thetas st' = thetas st @ ts" "length ts = j"
    by auto
  ultimately show ?thesis using r ga j by auto
qed

text \<open>
  Claim C10.  Neither fit clears a history.  When two calls of \<open>fit\<close> on one object
  return, the first has completed \<open>j1\<close> passes of the loop body and the second \<open>j2\<close>,
  each at most \<open>n_iter\<close>; every history (\<open>costs\<close>; \<open>Js\<close> and \<open>thetas\<close>) after the
  second call is the history before the first call followed by the \<open>j1\<close> entries of the
  first call and the \<open>j2\<close> entries of the second.  The histories of a new object are
  empty, so after two calls on a new object their length is \<open>j1 + j2\<close>.
\<close>

theorem fit_histories_append:
  "(em_fit R em0 d1 g0 = Some (em1, g1) \<and> em_fit R em1 d2 g1 = Some (em2, g2) \<longrightarrow>
      (\<exists>s1 s2 j1 j2 c1 c2.
          init_params R d1 em0 g0 = Some (s1, g1) \<and> passes j1 (em_step d1) s1 = Some em1
        \<and> j1 \<le> em_n_iter em0
        \<and> init_params R d2 em1 g1 = Some (s2, g2) \<and> passes j2 (em_step d2) s2 = Some em2
        \<and> j2 \<le> em_n_iter em1
        \<and> costs em1 = costs em0 @ c1 \<and> length c1 = j1
        \<and> costs em2 = costs em0 @ c1 @ c2 \<and> length c2 = j2))
   \<and> (lr_fit R lr0 X1 y1 h0 = Some (lr1, h1) \<and> lr_fit R lr1 X2 y2 h1 = Some (lr2, h2) \<longrightarrow>
      (\<exists>t1 t2 j1 j2 c1 c2 T1 T2.
          passes j1 (lr_step (apply_bias_trick X1) y1) (lr0\<lparr>theta := Some t1\<rparr>) = Some lr1
        \<and> j1 \<le> lr_n_iter lr0
        \<and> passes j2 (lr_step (apply_bias_trick X2) y2) (lr1\<lparr>theta := Some t2\<rparr>) = Some lr2
        \<and> j2 \<le> lr_n_iter lr1
        \<and> Js lr1 = Js lr0 @ c1 \<and> length c1 = j1 \<and> Js lr2 = Js lr0 @ c1 @ c2 \<and> length c2 = j2
        \<and> thetas lr1 = thetas lr0 @ T1 \<and> length T1 = j1
        \<and> thetas lr2 = thetas lr0 @ T1 @ T2 \<and> length T2 = j2))
   \<and> costs (fst (EM_init R k n e r)) = []
   \<and> Js (LogisticRegressionGD_init eta n e r) = []
   \<and> thetas (LogisticRegressionGD_init eta n e r) = []"
proof (intro conjI impI)
  assume a: "em_fit R em0 d1 g0 = Some (em1, g1) \<and> em_fit R em1 d2 g1 = Some (em2, g2)"
  from em_fit_passes[of R em0 d1 g0 em1 g1] a obtain s1 j1 c1 where
    1: "init_params R d1 em0 g0 = Some (s1, g1)" "passes j1 (em_step d1) s1 = Some em1"
       "j1 \<le> em_n_iter em0" "costs em1 = costs em0 @ c1" "length c1 = j1"
    by blast
  from em_fit_passes[of R em1 d2 g1 em2 g2] a obtain s2 j2 c2 where
    2: "init_params R d2 em1 g1 = Some (s2, g2)" "passes j2 (em_step d2) s2 = Some em2"
       "j2 \<le> em_n_iter em1" "costs em2 = costs em1 @ c2" "length c2 = j2"
    by blast
  from 1 2 show "\<exists>s1 s2 j1 j2 c1 c2.
          init_params R d1 em0 g0 = Some (s1, g1) \<and> passes j1 (em_step d1) s1 = Some em1
        \<and> j1 \<le> em_n_iter em0
        \<and> init_params R d2 em1 g1 = Some (s2, g2) \<and> passes j2 (em_step d2) s2 = Some em2
        \<and> j2 \<le> em_n_iter em1
        \<and> costs em1 = costs em0 @ c1 \<and> length c1 = j1
        \<and> costs em2 = costs em0 @ c1 @ c2 \<and> length c2 = j2"
    by (intro exI[of _ s1] exI[of _ s2] exI[of _ j1] exI[of _ j2] exI[of _ c1] exI[of _ c2]) simp
next
  assume a: "lr_fit R lr0 X1 y1 h0 = Some (lr1, h1) \<and> lr_fit R lr1 X2 y2 h1 = Some (lr2, h2)"
  from lr_fit_passes[of R lr0 X1 y1 h0 lr1 h1] a obtain t1 j1 c1 T1 where
    1: "passes j1 (lr_step (apply_bias_trick X1) y1) (lr0\<lparr>theta := Some t1\<rparr>) = Some lr1"
       "j1 \<le> lr_n_iter lr0" "Js lr1 = Js lr0 @ c1" "length c1 = j1"
       "thetas lr1 = thetas lr0 @ T1" "length T1 = j1"
    by blast
  from lr_fit_passes[of R lr1 X2 y2 h1 lr2 h2] a obtain t2 j2 c2 T2 where
    2: "passes j2 (lr_step (apply_bias_trick X2) y2) (lr1\<lparr>theta := Some t2\<rparr>) = Some lr2"
       "j2 \<le> lr_n_iter lr1" "Js lr2 = Js lr1 @ c2" "length c2 = j2"
       "thetas lr2 = thetas lr1 @ T2" "length T2 = j2"
    by blast
  from 1 2 show "\<exists>t1 t2 j1 j2 c1 c2 T1 T2.
          passes j1 (lr_step (apply_bias_trick X1) y1) (lr0\<lparr>theta := Some t1\<rparr>) = Some lr1
        \<and> j1 \<le> lr_n_iter lr0
        \<and> passes j2 (lr_step (apply_bias_trick X2) y2) (lr1\<lparr>theta := Some t2\<rparr>) = Some lr2
        \<and> j2 \<le> lr_n_iter lr1
        \<and> Js lr1 = Js lr0 @ c1 \<and> length c1 = j1 \<and> Js lr2 = Js lr0 @ c1 @ c2 \<and> length c2 = j2
        \<and> thetas lr1 = thetas lr0 @ T1 \<and> length T1 = j1
        \<and> thetas lr2 = thetas lr0 @ T1 @ T2 \<and> length T2 = j2"
    by (intro exI[of _ t1] exI[of _ t2] exI[of _ j1] exI[of _ j2] exI[of _ c1] exI[of _ c2]
        exI[of _ T1] exI[of _ T2]) simp
qed (simp_all add: EM_init_def LogisticRegressionGD_init_def)

section \<open>The example fits\<close>

lemma example_pdf_pos: "\<not> exp (- (1 / 2)) / sqrt (2 * pi) < (0::real)"
  by (simp add: not_less)

lemma example_em_step:
  assumes "weights st = [Fin 1]" "mus st = [Fin mu]" "sigmas st = [Fin 1]" "em_k st = 1"
  shows "em_step example_data st =
     Some (st\<lparr>responsibilities := [[Fin 1, Fin 1]], weights := [Fin 1], mus := [Fin 1],
       sigmas := [Fin 1],
       costs := costs st @ [Fin (- (2 * log 2 (exp (- (1 / 2)) / sqrt (2 * pi))))]\<rparr>)"
proof -
  have e: "expectation example_data st = Some (st\<lparr>responsibilities := [[Fin 1, Fin 1]]\<rparr>)"
    using assms by (simp add: example_data_def expectation_def np_arith row_sums_def norm_pdf_def)
  have m: "maximization example_data (st\<lparr>responsibilities := [[Fin 1, Fin 1]]\<rparr>) =
      Some (st\<lparr>responsibilities := [[Fin 1, Fin 1]], weights := [Fin 1], mus := [Fin 1],
        sigmas := [Fin 1]\<rparr>)"
    using assms by (simp add: example_data_def maximization_def np_arith np_dot_def Let_def)
  have c: "em_cost (st\<lparr>responsibilities := [[Fin 1, Fin 1]], weights := [Fin 1], mus := [Fin 1],
        sigmas := [Fin 1]\<rparr>) example_data 0 =
      Some (Fin (- (2 * log 2 (exp (- (1 / 2)) / sqrt (2 * pi)))))"
    using example_pdf_pos
    by (simp add: example_data_def gmm_pdf_def py_sum_def np_arith norm_pdf_def)
  show ?thesis by (simp add: em_step_def e m c)
qed

lemma example_em_passes:
  assumes "weights s = [Fin 1]" "mus s = [Fin mu]" "sigmas s = [Fin 1]" "em_k s = 1"
  shows "passes (Suc n) (em_step example_data) s =
     Some (s\<lparr>responsibilities := [[Fin 1, Fin 1]], weights := [Fin 1], mus := [Fin 1],
       sigmas := [Fin 1],
       costs := costs s @ replicate (Suc n) (Fin (- (2 * log 2 (exp (- (1 / 2)) / sqrt (2 * pi)))))\<rparr>)"
proof (induction n)
  case 0
  show ?case using assms by (simp add: example_em_step[where mu = mu])
next
  case (Suc n)
  let ?u = "s\<lparr>responsibilities := [[Fin 1, Fin 1]], weights := [Fin 1], mus := [Fin 1],
       sigmas := [Fin 1],
       costs := costs s @ replicate (Suc n) (Fin (- (2 * log 2 (exp (- (1 / 2)) / sqrt (2 * pi)))))\<rparr>"
  have "passes (Suc (Suc n)) (em_step example_data) s = em_step example_data ?u"
    by (simp only: passes.simps(2)[of "Suc n"] Suc bind.bind_lunit)
  also have "\<dots> = Some (s\<lparr>responsibilities := [[Fin 1, Fin 1]], weights := [Fin 1], mus := [Fin 1],
       sigmas := [Fin 1],
       costs := costs s @ replicate (Suc (Suc n)) (Fin (- (2 * log 2 (exp (- (1 / 2)) / sqrt (2 * pi)))))\<rparr>)"
    using assms(4) by (subst example_em_step[where mu = 1]) (simp_all add: replicate_append_same)
  finally show ?case .
qed

lemma example_em_stops:
  assumes "weights s = [Fin 1]" "mus s = [Fin mu]" "sigmas s = [Fin 1]" "em_k s = 1"
    "em_eps s = Fin (1 / 100)"
  shows "em_stops example_data s i \<longleftrightarrow> 1 < i"
proof -
  let ?c = "Fin (- (2 * log 2 (exp (- (1 / 2)) / sqrt (2 * pi))))"
  let ?h = "costs s @ replicate (Suc i) ?c"
  have "?h ! (length ?h - 2) = ?c" if "1 < i"
  proof -
    from that have "length ?h - 2 = length (costs s) + (i - 1)" by simp
    then show ?thesis
      by (simp only: nth_append_length_plus) (simp del: replicate.simps)
  qed
  moreover have "?h ! (length ?h - 1) = ?c"
  proof -
    have "length ?h - 1 = length (costs s) + i" by simp
    then show ?thesis
      by (simp only: nth_append_length_plus) (simp del: replicate.simps)
  qed
  ultimately have "cost_drop_below i ?h (Fin (1 / 100)) \<longleftrightarrow> 1 < i"
    by (auto simp: cost_drop_below_def np_arith simp del: replicate.simps)
  then show ?thesis
    unfolding em_stops_def stops_at_def
    by (simp only: example_em_passes[OF assms(1-4)] option.case assms(5)) simp
qed

lemma example_em_loop:
  assumes "weights s = [Fin 1]" "mus s = [Fin mu]" "sigmas s = [Fin 1]" "em_k s = 1"
    "em_eps s = Fin (1 / 100)" "2 < n"
  shows "em_loop example_data [0..<n] s =
     Some (s\<lparr>responsibilities := [[Fin 1, Fin 1]], weights := [Fin 1], mus := [Fin 1],
       sigmas := [Fin 1],
       costs := costs s @ replicate 3 (Fin (- (2 * log 2 (exp (- (1 / 2)) / sqrt (2 * pi)))))\<rparr>)"
proof -
  have "em_loop example_data [0..<n] s = passes (Suc 2) (em_step example_data) s"
    using assms(6) example_em_stops[OF assms(1-5)]
    by (intro loop_stops_first[OF em_stop_loop]) (simp_all add: em_stops_def)
  then show ?thesis
    by (simp only: example_em_passes[OF assms(1-4)] numeral_3_eq_3 numeral_2_eq_2)
qed

lemma example_init:
  "init_params example_random example_data example_em 1991 =
     Some (example_em\<lparr>weights := [Fin 1], mus := [Fin 2], sigmas := [Fin 1]\<rparr>, 1992)"
proof -
  have "(1991::nat) mod Suc (Suc 0) = 1" by presburger
  then show ?thesis
    by (simp add: init_params_def example_random_def example_em_def example_data_def EM_init_def
      fancy_index_def np_std_def np_arith)
qed

lemma example_init_again:
  "init_params example_random example_data (example_em_fitted 3) 1992 =
     Some ((example_em_fitted 3)\<lparr>weights := [Fin 1], mus := [Fin 0], sigmas := [Fin 1]\<rparr>, 1993)"
proof -
  have "(1992::nat) mod Suc (Suc 0) = 0" by presburger
  then show ?thesis
    by (simp add: init_params_def example_random_def example_em_def example_data_def EM_init_def
      fancy_index_def np_std_def np_arith example_em_fitted_def)
qed

lemma example_em_fit:
  "em_fit example_random example_em example_data 1991 = Some (example_em_fitted 3, 1992)"
proof -
  let ?s = "example_em\<lparr>weights := [Fin 1], mus := [Fin 2], sigmas := [Fin 1]\<rparr>"
  have "em_loop example_data [0..<em_n_iter example_em] ?s = Some (example_em_fitted 3)"
    by (subst example_em_loop[where mu = 2])
      (simp_all add: example_em_def EM_init_def example_em_fitted_def)
  then show ?thesis by (simp add: em_fit_loop[OF example_init])
qed

lemma example_em_fit_again:
  "em_fit example_random (example_em_fitted 3) example_data 1992 = Some (example_em_fitted 6, 1993)"
proof -
  let ?s = "(example_em_fitted 3)\<lparr>weights := [Fin 1], mus := [Fin 0], sigmas := [Fin 1]\<rparr>"
  have "em_loop example_data [0..<em_n_iter (example_em_fitted 3)] ?s = Some (example_em_fitted 6)"
    by (subst example_em_loop[where mu = 0])
      (simp_all add: example_em_def EM_init_def example_em_fitted_def replicate_add[symmetric]
        del: replicate.simps)
  then show ?thesis by (simp add: em_fit_loop[OF example_init_again])
qed


lemma example_sigmoid_bounds:
  "\<not> 1 + exp (- (1 / 3)) < (0::real)" "\<not> 1 < 1 / (1 + exp (- (1 / 3 :: real)))"
  "1 + exp (- (1 / 3)) \<noteq> (0::real)"
proof -
  have p: "0 < 1 + exp (- (1 / 3 :: real))" by (simp add: add_pos_pos)
  then show "\<not> 1 + exp (- (1 / 3)) < (0::real)" "1 + exp (- (1 / 3)) \<noteq> (0::real)" by simp_all
  from p show "\<not> 1 < 1 / (1 + exp (- (1 / 3 :: real)))" by (simp add: not_less pos_divide_le_eq)
qed

lemma example_lr_step:
  assumes "theta st = Some [Fin (1 / 3), Fin (1 / 4)]" "lr_eta st = Fin 0"
  shows "lr_step (apply_bias_trick [[Fin 0]]) [Fin 0] st =
     Some (st\<lparr>thetas := thetas st @ [[Fin (1 / 3), Fin (1 / 4)]],
       Js := Js st @ [Fin (- ln (1 - 1 / (1 + exp (- (1 / 3)))))]\<rparr>)"
  using assms example_sigmoid_bounds
  by (simp add: lr_step_def apply_bias_trick_def mat_vec_def np_dot_def np_arith sigmoid_def
    matT_vec_def ncols_def column_def cost_function_def)

lemma example_lr_passes:
  assumes "theta s = Some [Fin (1 / 3), Fin (1 / 4)]" "lr_eta s = Fin 0"
  shows "passes (Suc n) (lr_step (apply_bias_trick [[Fin 0]]) [Fin 0]) s =
     Some (s\<lparr>thetas := thetas s @ replicate (Suc n) [Fin (1 / 3), Fin (1 / 4)],
       Js := Js s @ replicate (Suc n) (Fin (- ln (1 - 1 / (1 + exp (- (1 / 3))))))\<rparr>)"
proof (induction n)
  case 0
  show ?case using assms by (simp add: example_lr_step)
next
  case (Suc n)
  let ?u = "s\<lparr>thetas := thetas s @ replicate (Suc n) [Fin (1 / 3), Fin (1 / 4)],
       Js := Js s @ replicate (Suc n) (Fin (- ln (1 - 1 / (1 + exp (- (1 / 3))))))\<rparr>"
  have "passes (Suc (Suc n)) (lr_step (apply_bias_trick [[Fin 0]]) [Fin 0]) s =
      lr_step (apply_bias_trick [[Fin 0]]) [Fin 0] ?u"
    by (simp only: passes.simps(2)[of "Suc n"] Suc bind.bind_lunit)
  also have "\<dots> = Some (s\<lparr>thetas := thetas s @ replicate (Suc (Suc n)) [Fin (1 / 3), Fin (1 / 4)],
       Js := Js s @ replicate (Suc (Suc n)) (Fin (- ln (1 - 1 / (1 + exp (- (1 / 3))))))\<rparr>)"
    using assms by (subst example_lr_step) (simp_all add: replicate_append_same)
  finally show ?case .
qed

lemma example_lr_stops:
  assumes "theta s = Some [Fin (1 / 3), Fin (1 / 4)]" "lr_eta s = Fin 0"
    "lr_eps s = Fin (1 / 1000000)"
  shows "lr_stops (apply_bias_trick [[Fin 0]]) [Fin 0] s i \<longleftrightarrow> 1 < i"
proof -
  let ?c = "Fin (- ln (1 - 1 / (1 + exp (- (1 / 3)))))"
  let ?h = "Js s @ replicate (Suc i) ?c"
  have "?h ! (length ?h - 2) = ?c" if "1 < i"
  proof -
    from that have "length ?h - 2 = length (Js s) + (i - 1)" by simp
    then show ?thesis
      by (simp only: nth_append_length_plus) (simp del: replicate.simps)
  qed
  moreover have "?h ! (length ?h - 1) = ?c"
  proof -
    have "length ?h - 1 = length (Js s) + i" by simp
    then show ?thesis
      by (simp only: nth_append_length_plus) (simp del: replicate.simps)
  qed
  ultimately have "cost_drop_below i ?h (Fin (1 / 1000000)) \<longleftrightarrow> 1 < i"
    by (auto simp: cost_drop_below_def np_arith simp del: replicate.simps)
  then show ?thesis
    unfolding lr_stops_def stops_at_def
    by (simp only: example_lr_passes[OF assms(1,2)] option.case assms(3)) simp
qed

lemma example_lr_loop:
  assumes "theta s = Some [Fin (1 / 3), Fin (1 / 4)]" "lr_eta s = Fin 0"
    "lr_eps s = Fin (1 / 1000000)" "2 < n"
  shows "lr_loop (apply_bias_trick [[Fin 0]]) [Fin 0] [0..<n] s =
     Some (s\<lparr>thetas := thetas s @ replicate 3 [Fin (1 / 3), Fin (1 / 4)],
       Js := Js s @ replicate 3 (Fin (- ln (1 - 1 / (1 + exp (- (1 / 3))))))\<rparr>)"
proof -
  have "lr_loop (apply_bias_trick [[Fin 0]]) [Fin 0] [0..<n] s =
      passes (Suc 2) (lr_step (apply_bias_trick [[Fin 0]]) [Fin 0]) s"
    using assms(4) example_lr_stops[OF assms(1-3)]
    by (intro loop_stops_first[OF lr_stop_loop]) (simp_all add: lr_stops_def)
  then show ?thesis
    by (simp only: example_lr_passes[OF assms(1,2)] numeral_3_eq_3 numeral_2_eq_2)
qed

lemma example_lr_init:
  "lr_random_state st = 1 \<Longrightarrow>
   rng_random example_random (ncols (apply_bias_trick [[Fin 0]]))
     (rng_seed example_random (lr_random_state st)) = ([Fin (1 / 3), Fin (1 / 4)], 3)"
  by (simp add: example_random_def ncols_def apply_bias_trick_def)

lemma example_lr_fit:
  "lr_fit example_random example_lr [[Fin 0]] [Fin 0] g = Some (example_lr_fitted 3, 3)"
proof -
  have r: "lr_random_state example_lr = 1"
    by (simp add: example_lr_def LogisticRegressionGD_init_def)
  have "lr_loop (apply_bias_trick [[Fin 0]]) [Fin 0] [0..<lr_n_iter example_lr]
      (example_lr\<lparr>theta := Some [Fin (1 / 3), Fin (1 / 4)]\<rparr>) = Some (example_lr_fitted 3)"
    by (subst example_lr_loop)
      (simp_all add: example_lr_def LogisticRegressionGD_init_def example_lr_fitted_def)
  then show ?thesis by (simp add: lr_fit_loop[OF example_lr_init[OF r]])
qed

lemma example_lr_fit_again:
  "lr_fit example_random (example_lr_fitted 3) [[Fin 0]] [Fin 0] g = Some (example_lr_fitted 6, 3)"
proof -
  have r: "lr_random_state (example_lr_fitted 3) = 1"
    by (simp add: example_lr_def LogisticRegressionGD_init_def example_lr_fitted_def)
  have "lr_loop (apply_bias_trick [[Fin 0]]) [Fin 0] [0..<lr_n_iter (example_lr_fitted 3)]
      ((example_lr_fitted 3)\<lparr>theta := Some [Fin (1 / 3), Fin (1 / 4)]\<rparr>) = Some (example_lr_fitted 6)"
    by (subst example_lr_loop)
      (simp_all add: example_lr_def LogisticRegressionGD_init_def example_lr_fitted_def
        replicate_add[symmetric] del: replicate.simps)
  then show ?thesis by (simp add: lr_fit_loop[OF example_lr_init[OF r]])
qed


theorem fit_stops_exactly_witness:
  "init_params example_random example_data example_em 1991 =
     Some (example_em\<lparr>weights := [Fin 1], mus := [Fin 2], sigmas := [Fin 1]\<rparr>, 1992)
   \<and> 2 < em_n_iter example_em
   \<and> \<not> em_stops example_data (example_em\<lparr>weights := [Fin 1], mus := [Fin 2], sigmas := [Fin 1]\<rparr>) 0
   \<and> \<not> em_stops example_data (example_em\<lparr>weights := [Fin 1], mus := [Fin 2], sigmas := [Fin 1]\<rparr>) 1
   \<and> em_stops example_data (example_em\<lparr>weights := [Fin 1], mus := [Fin 2], sigmas := [Fin 1]\<rparr>) 2
   \<and> em_fit example_random example_em example_data 1991 = Some (example_em_fitted 3, 1992)
   \<and> rng_random example_random (ncols (apply_bias_trick [[Fin 0]]))
        (rng_seed example_random (lr_random_state example_lr)) = ([Fin (1 / 3), Fin (1 / 4)], 3)
   \<and> 2 < lr_n_iter example_lr
   \<and> \<not> lr_stops (apply_bias_trick [[Fin 0]]) [Fin 0]
        (example_lr\<lparr>theta := Some [Fin (1 / 3), Fin (1 / 4)]\<rparr>) 0
   \<and> \<not> lr_stops (apply_bias_trick [[Fin 0]]) [Fin 0]
        (example_lr\<lparr>theta := Some [Fin (1 / 3), Fin (1 / 4)]\<rparr>) 1
   \<and> lr_stops (apply_bias_trick [[Fin 0]]) [Fin 0]
        (example_lr\<lparr>theta := Some [Fin (1 / 3), Fin (1 / 4)]\<rparr>) 2
   \<and> lr_fit example_random example_lr [[Fin 0]] [Fin 0] 0 = Some (example_lr_fitted 3, 3)
   \<and> 1 < (2::nat) \<and> Fin 1 < Fin 2 \<and> 0 \<le> Fin (1 / 100)
   \<and> cost_drop_below 2 ([Fin 3] @ [Fin 1, Fin 2]) (Fin (1 / 100))"
proof -
  let ?s = "example_em\<lparr>weights := [Fin 1], mus := [Fin 2], sigmas := [Fin 1]\<rparr>"
  let ?l = "example_lr\<lparr>theta := Some [Fin (1 / 3), Fin (1 / 4)]\<rparr>"
  note T = fit_stops_exactly[where R = example_random and data = example_data and st = example_em
      and g = 1991 and ?s0.0 = ?s and g' = 1992 and X = "[[Fin 0]]" and lr = example_lr
      and th = "[Fin (1 / 3), Fin (1 / 4)]" and g'' = 3 and y = "[Fin 0]" and ?g0.0 = 0
      and i = 2 and previous = "Fin 1" and current = "Fin 2" and eps = "Fin (1 / 100)"
      and h = "[Fin 3]"]
  have n: "2 < em_n_iter example_em" "2 < lr_n_iter example_lr"
    by (simp_all add: example_em_def EM_init_def example_lr_def LogisticRegressionGD_init_def)
  have es: "em_stops example_data ?s i \<longleftrightarrow> 1 < i" for i
    by (rule example_em_stops[where mu = 2]) (simp_all add: example_em_def EM_init_def)
  have ls: "lr_stops (apply_bias_trick [[Fin 0]]) [Fin 0] ?l i \<longleftrightarrow> 1 < i" for i
    by (rule example_lr_stops) (simp_all add: example_lr_def LogisticRegressionGD_init_def)
  have r: "lr_random_state example_lr = 1"
    by (simp add: example_lr_def LogisticRegressionGD_init_def)
  note li = example_lr_init[OF r]
  have e: "\<forall>i<2. \<not> em_stops example_data ?s i" "em_stops example_data ?s 2"
    by (simp_all add: es)
  have l: "\<forall>i<2. \<not> lr_stops (apply_bias_trick [[Fin 0]]) [Fin 0] ?l i"
    "lr_stops (apply_bias_trick [[Fin 0]]) [Fin 0] ?l 2"
    by (simp_all add: ls)
  have c: "1 < (2::nat)" "Fin 1 < Fin 2" "0 \<le> Fin (1 / 100)"
    by (simp_all add: np_arith)
  have p3: "passes (Suc 2) (em_step example_data) ?s = Some (example_em_fitted 3)"
    "passes (Suc 2) (lr_step (apply_bias_trick [[Fin 0]]) [Fin 0]) ?l = Some (example_lr_fitted 3)"
    by (subst example_em_passes[where mu = 2] example_lr_passes;
        simp add: example_em_def EM_init_def example_em_fitted_def example_lr_def
          LogisticRegressionGD_init_def example_lr_fitted_def numeral_3_eq_3)+
  note T1 = T[THEN conjunct1, THEN mp, OF example_init]
  have E: "em_fit example_random example_em example_data 1991 =
      map_option (\<lambda>s. (s, 1992)) (passes (Suc 2) (em_step example_data) ?s)"
    by (rule T1[THEN conjunct1, THEN spec, of 2, THEN mp]) (intro conjI n e)
  note T2 = T[THEN conjunct2, THEN conjunct1, THEN mp, OF li]
  have L: "lr_fit example_random example_lr [[Fin 0]] [Fin 0] 0 =
      map_option (\<lambda>s. (s, 3)) (passes (Suc 2) (lr_step (apply_bias_trick [[Fin 0]]) [Fin 0]) ?l)"
    by (rule T2[THEN conjunct1, THEN spec, of 2, THEN mp]) (intro conjI n l)
  have C: "cost_drop_below 2 ([Fin 3] @ [Fin 1, Fin 2]) (Fin (1 / 100))"
    by (rule T[THEN conjunct2, THEN conjunct2, THEN mp]) (intro conjI c)
  have E': "em_fit example_random example_em example_data 1991 = Some (example_em_fitted 3, 1992)"
    by (simp only: E p3 option.map)
  have L': "lr_fit example_random example_lr [[Fin 0]] [Fin 0] 0 = Some (example_lr_fitted 3, 3)"
    by (simp only: L p3 option.map)
  have s: "\<not> em_stops example_data ?s 0" "\<not> em_stops example_data ?s 1" "em_stops example_data ?s 2"
    "\<not> lr_stops (apply_bias_trick [[Fin 0]]) [Fin 0] ?l 0"
    "\<not> lr_stops (apply_bias_trick [[Fin 0]]) [Fin 0] ?l 1"
    "lr_stops (apply_bias_trick [[Fin 0]]) [Fin 0] ?l 2"
    by (simp_all add: es ls)
  show ?thesis
    by (intro conjI example_init li n c s E' L' C)
qed

theorem fit_histories_append_witness:
  "em_fit example_random example_em example_data 1991 = Some (example_em_fitted 3, 1992)
   \<and> em_fit example_random (example_em_fitted 3) example_data 1992 = Some (example_em_fitted 6, 1993)
   \<and> (\<exists>s1 s2 j1 j2 c1 c2.
          init_params example_random example_data example_em 1991 = Some (s1, 1992)
        \<and> passes j1 (em_step example_data) s1 = Some (example_em_fitted 3)
        \<and> j1 \<le> em_n_iter example_em
        \<and> init_params example_random example_data (example_em_fitted 3) 1992 = Some (s2, 1993)
        \<and> passes j2 (em_step example_data) s2 = Some (example_em_fitted 6)
        \<and> j2 \<le> em_n_iter (example_em_fitted 3)
        \<and> costs (example_em_fitted 3) = costs example_em @ c1 \<and> length c1 = j1
        \<and> costs (example_em_fitted 6) = costs example_em @ c1 @ c2 \<and> length c2 = j2)
   \<and> lr_fit example_random example_lr [[Fin 0]] [Fin 0] 0 = Some (example_lr_fitted 3, 3)
   \<and> lr_fit example_random (example_lr_fitted 3) [[Fin 0]] [Fin 0] 3 = Some (example_lr_fitted 6, 3)
   \<and> (\<exists>t1 t2 j1 j2 c1 c2 T1 T2.
          passes j1 (lr_step (apply_bias_trick [[Fin 0]]) [Fin 0]) (example_lr\<lparr>theta := Some t1\<rparr>)
            = Some (example_lr_fitted 3)
        \<and> j1 \<le> lr_n_iter example_lr
        \<and> passes j2 (lr_step (apply_bias_trick [[Fin 0]]) [Fin 0])
            ((example_lr_fitted 3)\<lparr>theta := Some t2\<rparr>) = Some (example_lr_fitted 6)
        \<and> j2 \<le> lr_n_iter (example_lr_fitted 3)
        \<and> Js (example_lr_fitted 3) = Js example_lr @ c1 \<and> length c1 = j1
        \<and> Js (example_lr_fitted 6) = Js example_lr @ c1 @ c2 \<and> length c2 = j2
        \<and> thetas (example_lr_fitted 3) = thetas example_lr @ T1 \<and> length T1 = j1
        \<and> thetas (example_lr_fitted 6) = thetas example_lr @ T1 @ T2 \<and> length T2 = j2)
   \<and> length (costs (example_em_fitted 6)) = 3 + 3
   \<and> length (Js (example_lr_fitted 6)) = 3 + 3
   \<and> length (thetas (example_lr_fitted 6)) = 3 + 3"
proof -
  note T = fit_histories_append[where R = example_random and ?em0.0 = example_em
      and ?d1.0 = example_data and ?g0.0 = 1991 and ?em1.0 = "example_em_fitted 3" and ?g1.0 = 1992
      and ?d2.0 = example_data and ?em2.0 = "example_em_fitted 6" and ?g2.0 = 1993
      and ?lr0.0 = example_lr and ?X1.0 = "[[Fin 0]]" and ?y1.0 = "[Fin 0]" and ?h0.0 = 0
      and ?lr1.0 = "example_lr_fitted 3" and ?h1.0 = 3 and ?X2.0 = "[[Fin 0]]" and ?y2.0 = "[Fin 0]"
      and ?lr2.0 = "example_lr_fitted 6" and ?h2.0 = 3]
  note E = T[THEN conjunct1, THEN mp, OF conjI[OF example_em_fit example_em_fit_again]]
  note L = T[THEN conjunct2, THEN conjunct1, THEN mp, OF conjI[OF example_lr_fit example_lr_fit_again]]
  have n: "length (costs (example_em_fitted 6)) = 3 + 3"
    "length (Js (example_lr_fitted 6)) = 3 + 3" "length (thetas (example_lr_fitted 6)) = 3 + 3"
    by (simp_all add: example_em_fitted_def example_lr_fitted_def)
  show ?thesis
    by (intro conjI example_em_fit example_em_fit_again example_lr_fit example_lr_fit_again E L n)
qed

section \<open>The maximization step\<close>

lemma likelihood_cols_shape:
  "likelihood_cols data st is = Some cols \<Longrightarrow>
   length cols = length is \<and> (\<forall>c\<in>set cols. length c = length data)"
  by (induction "is" arbitrary: cols) (auto simp: bind_eq_Some_conv Let_def split: if_splits)

lemma expectation_shape:
  assumes "expectation data st0 = Some st"
  shows "length (responsibilities st) = em_k st0"
    "\<forall>c\<in>set (responsibilities st). length c = length data"
    "em_k st = em_k st0" "sigmas st = sigmas st0" "weights st = weights st0" "mus st = mus st0"
proof -
  from assms obtain cols where c: "likelihood_cols data st0 [0..<em_k st0] = Some cols"
    and s: "st = st0\<lparr>responsibilities := map (\<lambda>col. map2 (\<lambda>a b. a / b) col (row_sums (length data) cols)) cols\<rparr>"
    by (auto simp: expectation_def bind_eq_Some_conv Let_def)
  from likelihood_cols_shape[OF c] s
  show "length (responsibilities st) = em_k st0"
    "\<forall>c\<in>set (responsibilities st). length c = length data"
    "em_k st = em_k st0" "sigmas st = sigmas st0" "weights st = weights st0" "mus st = mus st0"
    by (auto simp: row_sums_def)
qed

lemma those_map_Some: "those (map (\<lambda>x. Some (f x)) xs) = Some (map f xs)"
  by (induction xs) auto

lemma sigma_loop_append:
  "sigma_loop data resp ms (is @ js) s = sigma_loop data resp ms is s \<bind> sigma_loop data resp ms js"
  by (induction "is" arbitrary: s) (auto simp: np_dot_def)

lemma sigma_loop_upt:
  assumes "k \<le> length resp" "k \<le> length ms" "k \<le> length s"
    "\<forall>c\<in>set resp. length c = length data"
  shows "sigma_loop data resp ms [0..<k] s =
     Some (map (\<lambda>i. np_sum (map2 (*) (resp ! i) (map (\<lambda>d. sq (d - ms ! i)) data))) [0..<k] @ drop k s)"
  using assms(1-3)
proof (induction k)
  case 0
  then show ?case by simp
next
  case (Suc k)
  have l: "length (resp ! k) = length data" using Suc.prems assms(4) by simp
  let ?p = "map (\<lambda>i. np_sum (map2 (*) (resp ! i) (map (\<lambda>d. sq (d - ms ! i)) data))) [0..<k]"
  have u: "(?p @ drop k s)[k := v] = ?p @ [v] @ drop (Suc k) s" for v
  proof -
    have "drop k s = s ! k # drop (Suc k) s"
      using Suc.prems by (simp add: Cons_nth_drop_Suc)
    then show ?thesis by (simp add: list_update_append)
  qed
  show ?case
    using Suc l by (simp add: sigma_loop_append np_dot_def u)
qed


lemma those_map_cong:
  "\<forall>x\<in>set xs. f x = Some (g x) \<Longrightarrow> those (map f xs) = Some (map g xs)"
  by (induction xs) auto

lemma map2_same: "map2 f (map g xs) (map h xs) = map (\<lambda>x. f (g x) (h x)) xs"
  by (induction xs) auto

lemma map2_nth_upt:
  assumes "length xs = k"
  shows "map2 f xs (map g [0..<k]) = map (\<lambda>i. f (xs ! i) (g i)) [0..<k]"
proof -
  have "map2 f (map (\<lambda>i. xs ! i) [0..<k]) (map g [0..<k]) = map (\<lambda>i. f (xs ! i) (g i)) [0..<k]"
    by (rule map2_same)
  moreover have "map (\<lambda>i. xs ! i) [0..<k] = xs"
    using assms map_nth[of xs] by simp
  ultimately show ?thesis by simp
qed

lemma maximization_value:
  assumes "length (responsibilities st) = em_k st"
    "\<forall>c\<in>set (responsibilities st). length c = length data"
    "length (sigmas st) = em_k st"
  shows "maximization data st =
     Some (st\<lparr>weights := map np_mean (responsibilities st),
       mus := map (\<lambda>c. (1 / (Fin (real (length data)) * np_mean c)) * np_sum (map2 (*) c data))
                (responsibilities st),
       sigmas := map (\<lambda>i. np_sqrt
           ((1 / (Fin (real (length data)) * map np_mean (responsibilities st) ! i))
            * np_sum (map2 (*) (responsibilities st ! i)
                (map (\<lambda>d. sq (d - map (\<lambda>c. (1 / (Fin (real (length data)) * np_mean c))
                       * np_sum (map2 (*) c data)) (responsibilities st) ! i)) data))))
         [0..<em_k st]\<rparr>)"
proof -
  let ?R = "responsibilities st" and ?m = "Fin (real (length data))"
  let ?M = "map (\<lambda>c. (1 / (?m * np_mean c)) * np_sum (map2 (*) c data)) ?R"
  let ?V = "\<lambda>i. np_sum (map2 (*) (?R ! i) (map (\<lambda>d. sq (d - ?M ! i)) data))"
  have d: "those (map (\<lambda>col. np_dot col data) ?R) = Some (map (\<lambda>c. np_sum (map2 (*) c data)) ?R)"
    using assms(2) by (intro those_map_cong) (simp add: np_dot_def)
  have m: "map2 (\<lambda>wi d. (1 / (?m * wi)) * d) (map np_mean ?R) (map (\<lambda>c. np_sum (map2 (*) c data)) ?R)
      = ?M"
    by (simp only: map2_same)
  have s: "sigma_loop data ?R ?M [0..<em_k st] (sigmas st) = Some (map ?V [0..<em_k st])"
    using assms by (subst sigma_loop_upt) simp_all
  have b: "broadcast2 (\<lambda>wi si. np_sqrt ((1 / (?m * wi)) * si)) (map np_mean ?R) (map ?V [0..<em_k st])
      = Some (map (\<lambda>i. np_sqrt ((1 / (?m * map np_mean ?R ! i)) * ?V i)) [0..<em_k st])"
    using assms(1) by (simp add: broadcast2_def map2_nth_upt del: map_map)
  show ?thesis
    unfolding maximization_def Let_def
    by (simp only: d m s b bind.bind_lunit)
qed

text \<open>
  Claim C3.  After an expectation step (on an object whose \<open>sigmas\<close> has one entry per
  component) the maximization step succeeds and updates in sequence: the new weight of
  component \<open>i\<close> is the mean of responsibility column \<open>i\<close>; the new mean is the
  responsibility-weighted sum of the data divided by \<open>m\<close> times the new weight; the
  new standard deviation is the square root of the responsibility-weighted sum of the
  squared deviations from the new mean, divided by \<open>m\<close> times the new weight.  The
  code divides by \<open>m * w\<close> through the factor \<open>1 / (m * w)\<close>, and the statement keeps
  that form: the reciprocal of \<open>m\<close> times the new weight, times the weighted sum.
\<close>

theorem maximization_sequential:
  assumes "expectation data st0 = Some st" and "length (sigmas st0) = em_k st0"
  shows "\<exists>st'. maximization data st = Some st'
     \<and> length (weights st') = em_k st \<and> length (mus st') = em_k st
     \<and> length (sigmas st') = em_k st
     \<and> (\<forall>i<em_k st.
          weights st' ! i = np_mean (responsibilities st ! i)
        \<and> mus st' ! i = (1 / (Fin (real (length data)) * weights st' ! i))
             * np_sum (map2 (*) (responsibilities st ! i) data)
        \<and> sigmas st' ! i =
             np_sqrt ((1 / (Fin (real (length data)) * weights st' ! i))
                      * np_sum (map2 (*) (responsibilities st ! i)
                                  (map (\<lambda>d. sq (d - mus st' ! i)) data))))"
proof -
  note e = expectation_shape[OF assms(1)]
  have "length (responsibilities st) = em_k st" "length (sigmas st) = em_k st"
    using e assms(2) by simp_all
  from maximization_value[OF this(1) e(2) this(2)] this(1) show ?thesis
    by simp
qed

lemma example_expectation:
  "expectation example_data (example_em\<lparr>weights := [Fin 1], mus := [Fin 2], sigmas := [Fin 1]\<rparr>) =
     Some (example_em\<lparr>responsibilities := [[Fin 1, Fin 1]], weights := [Fin 1], mus := [Fin 2],
       sigmas := [Fin 1]\<rparr>)"
  by (simp add: example_data_def expectation_def np_arith row_sums_def norm_pdf_def
      example_em_def EM_init_def)

theorem maximization_sequential_witness:
  "expectation example_data (example_em\<lparr>weights := [Fin 1], mus := [Fin 2], sigmas := [Fin 1]\<rparr>) =
     Some (example_em\<lparr>responsibilities := [[Fin 1, Fin 1]], weights := [Fin 1], mus := [Fin 2],
       sigmas := [Fin 1]\<rparr>)
   \<and> length (sigmas (example_em\<lparr>weights := [Fin 1], mus := [Fin 2], sigmas := [Fin 1]\<rparr>))
       = em_k (example_em\<lparr>weights := [Fin 1], mus := [Fin 2], sigmas := [Fin 1]\<rparr>)
   \<and> (\<exists>st'. maximization example_data
          (example_em\<lparr>responsibilities := [[Fin 1, Fin 1]], weights := [Fin 1], mus := [Fin 2],
             sigmas := [Fin 1]\<rparr>) = Some st'
       \<and> weights st' = [Fin 1] \<and> mus st' = [Fin 1] \<and> sigmas st' = [Fin 1])"
proof -
  let ?a = "example_em\<lparr>weights := [Fin 1], mus := [Fin 2], sigmas := [Fin 1]\<rparr>"
  let ?b = "example_em\<lparr>responsibilities := [[Fin 1, Fin 1]], weights := [Fin 1], mus := [Fin 2],
       sigmas := [Fin 1]\<rparr>"
  have h2: "length (sigmas ?a) = em_k ?a"
    by (simp add: example_em_def EM_init_def)
  have k: "em_k ?b = 1" "responsibilities ?b = [[Fin 1, Fin 1]]"
    by (simp_all add: example_em_def EM_init_def)
  from maximization_sequential[OF example_expectation h2] obtain st' where
    m: "maximization example_data ?b = Some st'"
    and l: "length (weights st') = em_k ?b" "length (mus st') = em_k ?b" "length (sigmas st') = em_k ?b"
    and v: "\<forall>i<em_k ?b.
          weights st' ! i = np_mean (responsibilities ?b ! i)
        \<and> mus st' ! i = (1 / (Fin (real (length example_data)) * weights st' ! i))
             * np_sum (map2 (*) (responsibilities ?b ! i) example_data)
        \<and> sigmas st' ! i =
             np_sqrt ((1 / (Fin (real (length example_data)) * weights st' ! i))
                      * np_sum (map2 (*) (responsibilities ?b ! i)
                                  (map (\<lambda>d. sq (d - mus st' ! i)) example_data)))"
    by blast
  from v have w: "weights st' ! 0 = Fin 1"
    by (simp add: k np_arith)
  with v have mu: "mus st' ! 0 = Fin 1"
    by (simp add: k np_arith example_data_def)
  with v w have sg: "sigmas st' ! 0 = Fin 1"
    by (simp add: k np_arith example_data_def)
  from l k(1) have "weights st' = [weights st' ! 0]" "mus st' = [mus st' ! 0]"
    "sigmas st' = [sigmas st' ! 0]"
    by (simp_all add: length_Suc_conv) auto
  with w mu sg have "weights st' = [Fin 1] \<and> mus st' = [Fin 1] \<and> sigmas st' = [Fin 1]"
    by simp
  with m example_expectation h2 show ?thesis by blast
qed

section \<open>The Naive Bayes classifier\<close>

lemma example_fit_features:
  assumes "nb_k nb = 1" "nb_random_state nb = 1991"
  shows "fit_features example_random nb [[Fin 0], [Fin 2]] [0] [] g = Some ([example_dist], 1992)"
proof -
  have i: "EM_init example_random (Suc 0) 1000 (Fin (1 / 100)) 1991 = (example_em, 1991)"
    by (simp add: example_em_def EM_init_def example_random_def)
  have c: "column [[Fin 0], [Fin 2]] 0 = example_data"
    by (simp add: column_def example_data_def)
  show ?thesis
    using assms
    by (simp add: i c example_em_fit get_dist_params_def example_em_fitted_def example_dist_def)
qed

lemma example_fit_class:
  assumes "nb_k nb = 1" "nb_random_state nb = 1991"
    "mask_rows X (map (\<lambda>l. l = c) y) = Some [[Fin 0], [Fin 2]]"
    "int_truediv (Suc (Suc 0)) (length X) = Some p"
  shows "fit_classes example_random X y (c # cs) nb g =
     fit_classes example_random X y cs
       (nb\<lparr>prior := dict_set c p (prior nb),
           dist_params := dict_set c [example_dist] (dict_set c [] (dist_params nb))\<rparr>) 1992"
proof -
  have n: "[0..<ncols [[Fin 0], [Fin 2]]] = [0]"
    by (simp add: ncols_def)
  have f: "fit_features example_random
      (nb\<lparr>dist_params := dict_set c [] (dist_params nb), prior := dict_set c p (prior nb)\<rparr>)
      [[Fin 0], [Fin 2]] [0] [] g = Some ([example_dist], 1992)"
    by (rule example_fit_features) (simp_all add: assms)
  show ?thesis
    using assms(3,4)
    by (simp add: n f Let_def del: fit_features.simps)
qed


lemma example_nb_fit:
  "nb_fit example_random example_nb example_X example_y g = Some (example_nb_fitted, 1992)"
proof -
  have u: "np_unique example_y = [1, 2]"
    by (simp add: np_unique_def example_y_def)
  have k: "nb_k (example_nb\<lparr>prior := p, dist_params := d\<rparr>) = 1"
    "nb_random_state (example_nb\<lparr>prior := p, dist_params := d\<rparr>) = 1991"
    "nb_k example_nb = 1" "nb_random_state example_nb = 1991" for d p
    by (simp_all add: example_nb_def NaiveBayesGaussian_init_def)
  have m: "mask_rows example_X (map (\<lambda>l. l = 1) example_y) = Some [[Fin 0], [Fin 2]]"
    "mask_rows example_X (map (\<lambda>l. l = 2) example_y) = Some [[Fin 0], [Fin 2]]"
    "int_truediv (Suc (Suc 0)) (length example_X) = Some (Fin (1 / 2))"
    by (simp_all add: example_X_def example_y_def mask_rows_def int_truediv_def)
  have e: "prior example_nb = []" "dist_params example_nb = []"
    by (simp_all add: example_nb_def NaiveBayesGaussian_init_def)
  show ?thesis
    unfolding nb_fit_def u
    by (simp only: example_fit_class[OF k(3,4) m(1) m(3)] example_fit_class[OF k(1,2) m(2) m(3)]
        fit_classes.simps(1))
      (simp add: e example_nb_fitted_def)
qed


lemma argmax_tie: "np_argmax [v, v] = Some 0"
  by (cases v) simp_all

lemma example_posterior:
  assumes "map_of (dist_params nb) c = Some [example_dist]" "map_of (prior nb) c = Some p"
  shows "posterior_column nb example_X c =
     Some (map (\<lambda>d. (1 * (0 + Fin 1 * norm_pdf d (Fin 1) (Fin 1))) * p) [Fin 0, Fin 2, Fin 0, Fin 2])"
  using assms
  by (simp add: posterior_column_def example_X_def ncols_def gmm_pdf_array_def column_def
      example_dist_def py_sum_def zero_npfloat_def)

lemma example_predict_tie:
  assumes "prior nb = [(a, p), (b, p)]" "a \<noteq> b"
    "dist_params nb = [(a, [example_dist]), (b, [example_dist])]"
  shows "nb_predict nb example_X = Some [0, 0, 0, 0]"
proof -
  have "posterior_column nb example_X a = posterior_column nb example_X b"
    using assms by (simp add: example_posterior)
  moreover have "\<exists>col. posterior_column nb example_X a = Some col \<and> length col = 4"
    using assms by (simp add: example_posterior)
  ultimately obtain col where c: "posterior_column nb example_X a = Some col"
    "posterior_column nb example_X b = Some col" "length col = 4" by auto
  have l: "length example_X = 4" by (simp add: example_X_def)
  have u: "[0..<4] = [0, 1, 2, 3]" by (simp add: upt_rec)
  show ?thesis
    unfolding nb_predict_def
    by (simp add: assms(1) c l u argmax_tie del: np_argmax.simps)
qed













text \<open>
  Claim C1.  \<open>predict\<close> returns, for every instance, the position of the first maximal
  posterior column in the order of the keys of \<open>prior\<close>, not the label at that
  position.  The classifier below is fitted to the labels 1 and 2; both classes have
  the same posterior at every instance, the claim gives label 1 to each of them, and
  \<open>predict\<close> returns 0, which is not a label seen during \<open>fit\<close>.
\<close>

theorem predict_returns_position:
  "nb_fit example_random example_nb example_X example_y 0 = Some (example_nb_fitted, 1992)
   \<and> set example_y = {1, 2}
   \<and> map fst (prior example_nb_fitted) = [1, 2]
   \<and> nb_predict example_nb_fitted example_X = Some [0, 0, 0, 0]"
proof -
  have "nb_predict example_nb_fitted example_X = Some [0, 0, 0, 0]"
    by (rule example_predict_tie[where a = 1 and b = 2 and p = "Fin (1 / 2)"])
      (simp_all add: example_nb_fitted_def)
  moreover have "set example_y = {1, 2}"
    by (auto simp: example_y_def)
  moreover have "map fst (prior example_nb_fitted) = [1, 2]"
    by (simp add: example_nb_fitted_def)
  ultimately show ?thesis
    by (intro conjI example_nb_fit)
qed



section \<open>The folds of the cross-validation\<close>


lemma concat_test_blocks: "concat (map (test_block q) [1..<n + 1]) = [0..<n * q]"
proof (induction n)
  case 0
  show ?case by simp
next
  case (Suc n)
  have "[0..<n * q] @ [n * q..<n * q + q] = [0..<n * q + q]"
    by (simp add: upt_add_eq_append[symmetric])
  with Suc show ?case
    by (simp add: test_block_def add.commute)
qed





















section \<open>Fitting an object again\<close>


























section \<open>The expectation step\<close>










end
